theory Spec2Isabelle
  imports Main
begin

section \<open>JavaScript strings and values\<close>

text \<open>
  Strings are character lists. The helpers below are the string primitives the launcher
  uses: \<^verbatim>\<open>String.prototype.includes\<close>, \<^verbatim>\<open>trim\<close>, \<^verbatim>\<open>split\<close> on one separator character,
  \<^verbatim>\<open>Array.prototype.join\<close>, and the character classes of its regular expressions.
\<close>

definition LF :: char where
  "LF = CHR 0x0A"

definition CR :: char where
  "CR = CHR 0x0D"

definition DQ :: char where
  \<comment> \<open>the double quote\<close>
  "DQ = CHR 0x22"

definition SQ :: char where
  \<comment> \<open>the single quote\<close>
  "SQ = CHR 0x27"

fun startsWith :: "string \<Rightarrow> string \<Rightarrow> bool" where
  "startsWith s [] = True"
| "startsWith [] (c # cs) = False"
| "startsWith (x # xs) (c # cs) = (x = c \<and> startsWith xs cs)"

fun str_includes :: "string \<Rightarrow> string \<Rightarrow> bool" where
  "str_includes [] sub = (sub = [])"
| "str_includes (x # xs) sub = (startsWith (x # xs) sub \<or> str_includes xs sub)"

definition is_space :: "char \<Rightarrow> bool" where
  \<comment> \<open>the ASCII part of JavaScript's white space and line terminators\<close>
  "is_space c = (c \<in> set [CHR '' '', CHR 0x09, CHR 0x0A, CHR 0x0B, CHR 0x0C, CHR 0x0D])"

definition trim :: "string \<Rightarrow> string" where
  "trim s = rev (dropWhile is_space (rev (dropWhile is_space s)))"

fun split :: "char \<Rightarrow> string \<Rightarrow> string list" where
  "split sep [] = [[]]"
| "split sep (x # xs) =
     (if x = sep then [] # split sep xs
      else (case split sep xs of
              [] \<Rightarrow> [[x]]
            | r # rs \<Rightarrow> (x # r) # rs))"

fun join :: "string \<Rightarrow> string list \<Rightarrow> string" where
  "join sep [] = []"
| "join sep [x] = x"
| "join sep (x # y # ys) = x @ sep @ join sep (y # ys)"

definition is_digit :: "char \<Rightarrow> bool" where
  \<comment> \<open>the class \<^verbatim>\<open>\d\<close>\<close>
  "is_digit c = (c \<in> set ''0123456789'')"

definition to_lower :: "char \<Rightarrow> char" where
  "to_lower c =
     (case map_of (zip ''ABCDEFGHIJKLMNOPQRSTUVWXYZ'' ''abcdefghijklmnopqrstuvwxyz'') c of
        None \<Rightarrow> c
      | Some l \<Rightarrow> l)"

definition js_str :: "string option \<Rightarrow> string" where
  \<comment> \<open>a possibly undefined value inside a template literal\<close>
  "js_str v = (case v of None \<Rightarrow> ''undefined'' | Some s \<Rightarrow> s)"

definition nth_opt :: "'a list \<Rightarrow> nat \<Rightarrow> 'a option" where
  \<comment> \<open>array destructuring: a missing position is undefined\<close>
  "nth_opt xs i = (if i < length xs then Some (xs ! i) else None)"

definition truthy_str :: "string option \<Rightarrow> bool" where
  \<comment> \<open>undefined and the empty string are falsy\<close>
  "truthy_str v = (case v of None \<Rightarrow> False | Some s \<Rightarrow> s \<noteq> [])"

subsection \<open>lib/utils.js: isVersion\<close>

text \<open>
  \<^verbatim>\<open>isVersion = value => /^\d+\.\d+\.\d+$/.test(value)\<close>. A dot is not a digit, so the
  greedy digit runs are the only way to match: digits, a dot, digits, a dot, digits, and
  nothing else. \<^verbatim>\<open>test\<close> converts its argument to a string, so an undefined value is
  tested as the text \<^verbatim>\<open>undefined\<close>.
\<close>

definition isVersion :: "string \<Rightarrow> bool" where
  "isVersion value =
     (let a = takeWhile is_digit value; r1 = dropWhile is_digit value
      in a \<noteq> [] \<and>
         (case r1 of
            [] \<Rightarrow> False
          | d1 # r2 \<Rightarrow>
              d1 = CHR ''.'' \<and>
              (let b = takeWhile is_digit r2; r3 = dropWhile is_digit r2
               in b \<noteq> [] \<and>
                  (case r3 of
                     [] \<Rightarrow> False
                   | d2 # r4 \<Rightarrow> d2 = CHR ''.'' \<and> r4 \<noteq> [] \<and> list_all is_digit r4))))"

definition isVersion_js :: "string option \<Rightarrow> bool" where
  "isVersion_js value = isVersion (js_str value)"

section \<open>The machine: files, directories and HTTP\<close>

text \<open>
  The file system is a map from paths to file contents together with the set of
  directories. \<open>http_log\<close> records every URL requested, in order. Paths are taken as
  normalised, so \<^verbatim>\<open>path.join(a, b)\<close> is \<open>a/b\<close>.
\<close>

record sys =
  files :: "string \<rightharpoonup> string"
  is_dir :: "string \<Rightarrow> bool"
  http_log :: "string list"

datatype fs_error = ENOENT | EEXIST | EISDIR

definition path_join :: "string \<Rightarrow> string \<Rightarrow> string" where
  "path_join a b = a @ ''/'' @ b"

definition dirname :: "string \<Rightarrow> string" where
  "dirname p =
     (case butlast (split (CHR ''/'') p) of
        [] \<Rightarrow> ''.''
      | d # ds \<Rightarrow> (let r = join ''/'' (d # ds) in if r = [] then ''/'' else r))"

definition existsSync :: "string \<Rightarrow> sys \<Rightarrow> bool" where
  "existsSync p fs = (files fs p \<noteq> None \<or> is_dir fs p)"

definition under :: "string \<Rightarrow> string \<Rightarrow> bool" where
  \<comment> \<open>\<open>q\<close> is \<open>p\<close> itself or lies below the directory \<open>p\<close>\<close>
  "under p q = (q = p \<or> startsWith q (p @ ''/''))"

definition rm_rf :: "string \<Rightarrow> sys \<Rightarrow> sys" where
  \<comment> \<open>\<^verbatim>\<open>rm(p, { force: true, recursive: true })\<close>\<close>
  "rm_rf p fs =
     fs\<lparr>files := (\<lambda>q. if under p q then None else files fs q),
        is_dir := (\<lambda>q. \<not> under p q \<and> is_dir fs q)\<rparr>"

definition rm_f :: "string \<Rightarrow> sys \<Rightarrow> fs_error + sys" where
  \<comment> \<open>\<^verbatim>\<open>rm(p, { force: true })\<close>: a missing path is fine, a directory is not\<close>
  "rm_f p fs =
     (if is_dir fs p then Inl EISDIR else Inr (fs\<lparr>files := (files fs)(p := None)\<rparr>))"

definition mkdir_p :: "string \<Rightarrow> sys \<Rightarrow> fs_error + sys" where
  \<comment> \<open>\<^verbatim>\<open>mkdir(p, { recursive: true })\<close>; the ancestors of \<open>p\<close> are not tracked\<close>
  "mkdir_p p fs =
     (if files fs p \<noteq> None then Inl EEXIST else Inr (fs\<lparr>is_dir := (is_dir fs)(p := True)\<rparr>))"

definition rename :: "string \<Rightarrow> string \<Rightarrow> sys \<Rightarrow> fs_error + sys" where
  \<comment> \<open>renaming a file, replacing a file already at the new path\<close>
  "rename old new fs =
     (case files fs old of
        None \<Rightarrow> Inl ENOENT
      | Some content \<Rightarrow>
          if is_dir fs new then Inl EISDIR
          else Inr (fs\<lparr>files := (files fs)(old := None, new \<mapsto> content)\<rparr>))"

definition writeFile :: "string \<Rightarrow> string \<Rightarrow> sys \<Rightarrow> fs_error + sys" where
  "writeFile p content fs =
     (if is_dir fs p then Inl EISDIR else Inr (fs\<lparr>files := (files fs)(p \<mapsto> content)\<rparr>))"

subsection \<open>Reading a file line by line\<close>

text \<open>
  \<^verbatim>\<open>readline.createInterface\<close> with \<^verbatim>\<open>crlfDelay: Infinity\<close> emits one \<^verbatim>\<open>line\<close> event per
  line, without the line ending; LF, CR LF and a lone CR end a line, and a last line with
  no ending is emitted when it is not empty. The first argument is the line read so far.
\<close>

fun readline :: "string \<Rightarrow> string \<Rightarrow> string list" where
  "readline cur [] = (if cur = [] then [] else [cur])"
| "readline cur [c] = (if c = LF \<or> c = CR then [cur] else [cur @ [c]])"
| "readline cur (c # d # ds) =
     (if c = CR \<and> d = LF then cur # readline [] ds
      else if c = LF \<or> c = CR then cur # readline [] (d # ds)
      else readline (cur @ [c]) (d # ds))"

declare readline.simps [simp del]

definition write_lines :: "string list \<Rightarrow> string" where
  \<comment> \<open>\<^verbatim>\<open>writer.write(line + '\n')\<close> for each line\<close>
  "write_lines ls = concat (map (\<lambda>line. line @ [LF]) ls)"

definition clean :: "string \<Rightarrow> bool" where
  \<comment> \<open>a text with no line break in it\<close>
  "clean l = (LF \<notin> set l \<and> CR \<notin> set l)"

subsection \<open>lib/utils.js: editing a file\<close>

definition deleteFromFile :: "string \<Rightarrow> string list \<Rightarrow> sys \<Rightarrow> fs_error + sys" where
  "deleteFromFile file strings fs =
     (case files fs file of
        None \<Rightarrow> Inl ENOENT
      | Some content \<Rightarrow>
          (case rm_f (file @ ''.swap'') fs of
             Inl e \<Rightarrow> Inl e
           | Inr fs1 \<Rightarrow>
               (let kept = filter (\<lambda>line. \<not> list_ex (\<lambda>str. str_includes line str) strings)
                                  (readline [] content);
                    fs2 = fs1\<lparr>files := (files fs1)(file @ ''.swap'' \<mapsto> write_lines kept)\<rparr>
                in case rename file (file @ ''.bak'') fs2 of
                     Inl e \<Rightarrow> Inl e
                   | Inr fs3 \<Rightarrow> rename (file @ ''.swap'') file fs3)))"

fun change_line :: "(string \<times> string) list \<Rightarrow> string \<Rightarrow> string option" where
  \<comment> \<open>the replacement of the first key the line contains, if any\<close>
  "change_line [] line = None"
| "change_line ((key, text) # rest) line =
     (if str_includes line key then Some text else change_line rest line)"

definition changeInFile :: "string \<Rightarrow> (string \<times> string) list \<Rightarrow> sys \<Rightarrow> fs_error + (bool \<times> sys)" where
  "changeInFile file texts fs =
     (case files fs file of
        None \<Rightarrow> Inl ENOENT
      | Some content \<Rightarrow>
          (case rm_f (file @ ''.swap'') fs of
             Inl e \<Rightarrow> Inl e
           | Inr fs1 \<Rightarrow>
               (let ls = readline [] content;
                    out = map (\<lambda>line. case change_line texts line of None \<Rightarrow> line | Some t \<Rightarrow> t) ls;
                    changed = list_ex (\<lambda>line. change_line texts line \<noteq> None) ls;
                    fs2 = fs1\<lparr>files := (files fs1)(file @ ''.swap'' \<mapsto> write_lines out)\<rparr>
                in case rename file (file @ ''.bak'') fs2 of
                     Inl e \<Rightarrow> Inl e
                   | Inr fs3 \<Rightarrow>
                       (case rename (file @ ''.swap'') file fs3 of
                          Inl e \<Rightarrow> Inl e
                        | Inr fs4 \<Rightarrow> Inr (changed, fs4)))))"

definition appendToFile :: "string \<Rightarrow> string list \<Rightarrow> sys \<Rightarrow> fs_error + sys" where
  \<comment> \<open>\<^verbatim>\<open>appendFile(file, '\n' + texts.join('\n') + '\n')\<close>; a single string is a list of one\<close>
  "appendToFile file texts fs =
     (if is_dir fs file then Inl EISDIR
      else Inr (fs\<lparr>files := (files fs)(file \<mapsto>
                  (case files fs file of None \<Rightarrow> [] | Some content \<Rightarrow> content)
                  @ [LF] @ join [LF] texts @ [LF])\<rparr>))"

subsection \<open>HTTP and JSON\<close>

datatype json =
    JNull
  | JBool bool
  | JNum int
  | JStr string
  | JArr "json list"
  | JObj "(string \<times> json) list"

datatype jsval = Undefined | Val json

fun opt_get :: "jsval \<Rightarrow> string \<Rightarrow> jsval" where
  \<comment> \<open>optional chaining \<^verbatim>\<open>v?.key\<close> for a key that no prototype defines\<close>
  "opt_get Undefined key = Undefined"
| "opt_get (Val (JObj kvs)) key = (case map_of kvs key of None \<Rightarrow> Undefined | Some v \<Rightarrow> Val v)"
| "opt_get (Val other) key = Undefined"

record http_response =
  statusCode :: nat
  statusMessage :: string
  headers :: "string \<rightharpoonup> string"
  chunks :: "string list"
  ended :: bool

datatype net_reply = NetError string | Reply http_response

datatype reject_reason =
    DownloadFailed nat string
  | ErrorMessage string
  | FsError fs_error

datatype 'a settled =
    Resolved 'a
  | Rejected reject_reason
  | Pending
  | Uncaught

text \<open>
  Everything outside the launcher that its file and download code calls. \<open>http_get\<close>
  answers a request for a URL; \<open>ended\<close> of a response says whether its body arrives in
  full. \<open>write_fails_at\<close> is the index of the first chunk whose write to disk fails, and
  \<open>rename_fails\<close> whether the final rename does. \<open>extract_archive\<close>, \<open>openssl\<close> and \<open>bcrypt\<close>
  are the external commands and the hash library, \<open>None\<close> being a failed command.
\<close>

record host_env =
  PLATFORM :: string
  ARCH :: string
  EXTENSION :: string
  DIST_TYPE :: string
  tmpDir :: string
  os_tmpdir :: string
  http_get :: "string \<Rightarrow> net_reply"
  resolveURL :: "string \<Rightarrow> string \<Rightarrow> string"
  write_fails_at :: "nat option"
  rename_fails :: bool
  extract_archive :: "string \<Rightarrow> string \<Rightarrow> sys \<Rightarrow> sys option"
  openssl :: "string \<Rightarrow> sys \<Rightarrow> sys option"
  bcrypt :: "string \<Rightarrow> string"

subsection \<open>lib/utils.js: \_download\<close>

text \<open>
  The body is piped into a write stream on the sibling file \<open>dest.temp\<close>, opened with
  flag \<^verbatim>\<open>wx\<close>. Only the stream's \<^verbatim>\<open>finish\<close> handler touches \<open>dest\<close>: it removes it and
  renames the temporary file over it. A redirect calls the function again; the first
  argument bounds the number of requests of one call, and a chain that outlasts it, like a
  body that never ends, leaves the promise \<open>Pending\<close>. A failing rename throws inside the
  event handler, which nothing catches.
\<close>

definition finish_stream :: "host_env \<Rightarrow> http_response \<Rightarrow> string \<Rightarrow> string \<Rightarrow> sys \<Rightarrow> string settled \<times> sys" where
  \<comment> \<open>every chunk was written; \<^verbatim>\<open>finish\<close> fires once the response has ended\<close>
  "finish_stream env response tmpDest dest fs =
     (let fs1 = fs\<lparr>files := (files fs)(tmpDest \<mapsto> concat (chunks response))\<rparr>
      in if \<not> ended response then (Pending, fs1)
         else
           (let fs2 = rm_rf dest fs1
            in if rename_fails env then (Uncaught, fs2)
               else (Resolved dest,
                     fs2\<lparr>files := (files fs2)(tmpDest := None, dest \<mapsto> concat (chunks response))\<rparr>)))"

definition pipe_to_file :: "host_env \<Rightarrow> http_response \<Rightarrow> string \<Rightarrow> string \<Rightarrow> sys \<Rightarrow> string settled \<times> sys" where
  "pipe_to_file env response tmpDest dest fs =
     (if existsSync tmpDest fs then (Rejected (FsError EEXIST), fs)
      else
        (case write_fails_at env of
           None \<Rightarrow> finish_stream env response tmpDest dest fs
         | Some k \<Rightarrow>
             if k < length (chunks response)
             then (Rejected (ErrorMessage ''write failed''),
                   fs\<lparr>files := (files fs)(tmpDest \<mapsto> concat (take k (chunks response)))\<rparr>)
             else finish_stream env response tmpDest dest fs))"

fun download :: "nat \<Rightarrow> host_env \<Rightarrow> string \<Rightarrow> string \<Rightarrow> sys \<Rightarrow> string settled \<times> sys" where
  "download 0 env url dest fs = (Pending, fs)"
| "download (Suc fuel) env url dest fs =
     (let tmpDest = dest @ ''.temp''
      in case mkdir_p (dirname dest) fs of
           Inl e \<Rightarrow> (Rejected (FsError e), fs)
         | Inr fs0 \<Rightarrow>
             (let fs1 = (rm_rf tmpDest fs0)\<lparr>http_log := http_log fs0 @ [url]\<rparr>
              in case http_get env url of
                   NetError msg \<Rightarrow> (Rejected (ErrorMessage msg), fs1)
                 | Reply response \<Rightarrow>
                     if statusCode response < 200 \<or> statusCode response \<ge> 400
                     then (Rejected (DownloadFailed (statusCode response) (statusMessage response)), fs1)
                     else if statusCode response > 300
                     then (if truthy_str (headers response ''location'')
                           then download fuel env (resolveURL env (the (headers response ''location'')) url) dest fs1
                           else (Rejected (DownloadFailed (statusCode response) (statusMessage response)), fs1))
                     else pipe_to_file env response tmpDest dest fs1))"

definition unarchive :: "host_env \<Rightarrow> string \<Rightarrow> string \<Rightarrow> sys \<Rightarrow> sys option" where
  \<comment> \<open>\<open>None\<close>: the extracting command failed and \<^verbatim>\<open>_execSync\<close> threw\<close>
  "unarchive env archive dest fs =
     (case mkdir_p dest (rm_rf dest fs) of
        Inl e \<Rightarrow> None
      | Inr fs1 \<Rightarrow> extract_archive env archive dest fs1)"

section \<open>Command-line options\<close>

text \<open>
  The fields of the parsed options that the modelled functions read. A version that was
  not given, and a password that was not given, are undefined.
\<close>

record options =
  destination :: string
  opensearchVersion :: "string option"
  dashboardsVersion :: "string option"
  refreshDownloads :: bool
  security :: bool
  opensearchHost :: string
  opensearchPort :: string
  dashboardsHost :: string
  dashboardsPort :: string
  username :: string
  password :: "string option"
  build :: bool

datatype cli_error = InvalidArgumentError

definition fullVersion :: "string \<Rightarrow> cli_error + string" where
  \<comment> \<open>cli.js: the argument parser of \<^verbatim>\<open>--opensearch-version\<close>\<close>
  "fullVersion input =
     (let value = trim input
      in if isVersion value then Inr value else Inl InvalidArgumentError)"

definition bind_err :: "'e + 'a \<Rightarrow> ('a \<Rightarrow> 'e + 'b) \<Rightarrow> 'e + 'b" where
  "bind_err m f = (case m of Inl e \<Rightarrow> Inl e | Inr x \<Rightarrow> f x)"

definition fs_try :: "fs_error + 'a \<Rightarrow> reject_reason + 'a" where
  "fs_try m = (case m of Inl e \<Rightarrow> Inl (FsError e) | Inr x \<Rightarrow> Inr x)"

section \<open>lib/opensearch.js: acquiring and configuring the search engine\<close>

definition legacy_release :: "string \<Rightarrow> bool" where
  \<comment> \<open>\<^verbatim>\<open>/^1\.[0-2]\./.test(version)\<close>\<close>
  "legacy_release version =
     (case version of
        a # b # c # d # rest \<Rightarrow> a = CHR ''1'' \<and> b = CHR ''.'' \<and> c \<in> set ''012'' \<and> d = CHR ''.''
      | _ \<Rightarrow> False)"

definition downloadOpenSearch :: "nat \<Rightarrow> host_env \<Rightarrow> string \<Rightarrow> bool \<Rightarrow> sys \<Rightarrow> string settled \<times> sys" where
  "downloadOpenSearch fuel env version refresh fs =
     (let dest = path_join (tmpDir env) (''opensearch-'' @ version @ ''.'' @ EXTENSION env)
      in if \<not> refresh \<and> existsSync dest fs then (Resolved dest, fs)
         else
           (let url =
                  (if legacy_release version
                   then ''https://artifacts.opensearch.org/releases/bundle/opensearch/'' @ version
                        @ ''/opensearch-'' @ version @ ''-'' @ PLATFORM env @ ''-'' @ ARCH env
                        @ ''.'' @ EXTENSION env
                   else ''https://ci.opensearch.org/ci/dbc/distribution-build-opensearch/'' @ version
                        @ ''/latest/'' @ PLATFORM env @ ''/'' @ ARCH env @ ''/'' @ DIST_TYPE env
                        @ ''/dist/opensearch/opensearch-'' @ version @ ''-'' @ PLATFORM env
                        @ ''-'' @ ARCH env @ ''.'' @ EXTENSION env)
            in download fuel env url dest fs))"

record certs =
  rooCACert :: string
  rooCAKey :: string
  adminKey :: string
  adminCert :: string
  adminCertSubject :: string
  nodeKey :: string
  nodeCert :: string
  nodeCertSubject :: string

definition subject_dn :: "string \<Rightarrow> string" where
  \<comment> \<open>\<^verbatim>\<open>.replace(/\//g, ',').replace(/^,+/, '')\<close>\<close>
  "subject_dn subj =
     dropWhile (\<lambda>c. c = CHR '','') (map (\<lambda>c. if c = CHR ''/'' then CHR '','' else c) subj)"

definition configureOpenSearchCerts :: "host_env \<Rightarrow> string \<Rightarrow> sys \<Rightarrow> reject_reason + (certs \<times> sys)" where
  \<comment> \<open>the runs of openssl, and the removal of their temporary files, are \<open>openssl env\<close>;
      the returned paths are relative to the config directory\<close>
  "configureOpenSearchCerts env folder fs =
     (let configDir = path_join folder ''config'';
          dest = path_join configDir ''config/certs''
      in bind_err (fs_try (mkdir_p dest (rm_rf dest fs))) (\<lambda>fs1.
           case openssl env dest fs1 of
             None \<Rightarrow> Inl (ErrorMessage ''openssl'')
           | Some fs2 \<Rightarrow>
               Inr (\<lparr>rooCACert = ''config/certs/root-ca.pem'',
                     rooCAKey = ''config/certs/root-ca-key.pem'',
                     adminKey = ''config/certs/admin-key.pem'',
                     adminCert = ''config/certs/admin.pem'',
                     adminCertSubject = subject_dn ''/C=US/ST=WASHINGTON/L=SEATTLE/O=ORG/OU=UNIT/CN=A'',
                     nodeKey = ''config/certs/node-key.pem'',
                     nodeCert = ''config/certs/node.pem'',
                     nodeCertSubject = subject_dn ''/C=US/ST=WASHINGTON/L=SEATTLE/O=ORG/OU=UNIT/CN=N''\<rparr>,
                    fs2)))"

definition securityParams :: "certs \<Rightarrow> string list" where
  "securityParams c =
     [''plugins.security.ssl.transport.pemcert_filepath: '' @ nodeCert c,
      ''plugins.security.ssl.transport.pemkey_filepath: '' @ nodeKey c,
      ''plugins.security.ssl.transport.pemtrustedcas_filepath: '' @ rooCACert c,
      ''plugins.security.ssl.transport.enforce_hostname_verification: false'',
      ''plugins.security.ssl.http.enabled: true'',
      ''plugins.security.ssl.http.pemcert_filepath: '' @ nodeCert c,
      ''plugins.security.ssl.http.pemkey_filepath: '' @ nodeKey c,
      ''plugins.security.ssl.http.pemtrustedcas_filepath: '' @ rooCACert c,
      ''plugins.security.allow_default_init_securityindex: true'',
      ''plugins.security.authcz.admin_dn:'',
      ''  - '' @ [SQ] @ adminCertSubject c @ [SQ],
      ''plugins.security.nodes_dn:'',
      ''  - '' @ [SQ] @ nodeCertSubject c @ [SQ],
      ''plugins.security.audit.type: internal_opensearch'',
      ''plugins.security.enable_snapshot_restore_privilege: true'',
      ''plugins.security.check_snapshot_restore_write_privileges: true'',
      ''plugins.security.restapi.roles_enabled: ['' @ [DQ] @ ''all_access'' @ [DQ] @ '', '' @ [DQ] @ ''security_rest_api_access'' @ [DQ] @ '']'']"

definition internal_users_yml :: "string \<Rightarrow> string" where
  "internal_users_yml hash =
     ''---'' @ [LF] @ ''_meta:'' @ [LF] @ ''  type: '' @ [DQ] @ ''internalusers'' @ [DQ] @ [LF]
     @ ''  config_version: 2'' @ [LF, LF] @ ''admin:'' @ [LF]
     @ ''  hash: '' @ [DQ] @ hash @ [DQ] @ [LF] @ ''  reserved: true'' @ [LF]
     @ ''  backend_roles:'' @ [LF] @ ''  - '' @ [DQ] @ ''admin'' @ [DQ] @ [LF]
     @ ''  description: '' @ [DQ] @ ''Admin user'' @ [DQ] @ [LF]"

definition configureSecurity :: "host_env \<Rightarrow> string \<Rightarrow> options \<Rightarrow> certs \<Rightarrow> sys \<Rightarrow> reject_reason + (string list \<times> sys)" where
  \<comment> \<open>the block guarded by the presence of \<^verbatim>\<open>plugins/opensearch-security\<close>: the
      parameters it pushes, and its files\<close>
  "configureSecurity env folder opts c fs =
     (if \<not> existsSync (path_join folder ''plugins/opensearch-security'') fs then Inr ([], fs)
      else if \<not> security opts
      then Inr (securityParams c @ [''plugins.security.disabled: true''], fs)
      else
        (let securityConfigDir = path_join (path_join folder ''config'') ''opensearch-security'';
             hash = bcrypt env (js_str (password opts))
         in bind_err (fs_try (mkdir_p securityConfigDir fs)) (\<lambda>fs1.
            bind_err (fs_try (writeFile (path_join securityConfigDir ''internal_users.yml'')
                                (internal_users_yml hash) fs1)) (\<lambda>fs2.
            bind_err (fs_try (changeInFile (path_join securityConfigDir ''config.yml'')
                                [(''dynamic:'',
                                  ''  dynamic:'' @ [LF] @ ''    kibana:'' @ [LF]
                                  @ ''      server_username: '' @ [DQ] @ username opts @ [DQ])] fs2))
              (\<lambda>(changed, fs3). Inr (securityParams c, fs3))))))"

definition pluginParams :: "host_env \<Rightarrow> string \<Rightarrow> sys \<Rightarrow> string list" where
  "pluginParams env folder fs =
     (if existsSync (path_join folder ''plugins/opensearch-index-management'') fs
      then [''path.repo: ['' @ os_tmpdir env @ '']''] else [])
     @ (if existsSync (path_join folder ''plugins/opensearch-alerting'') fs
        then [''plugins.destination.host.deny_list: ['' @ [DQ] @ ''10.0.0.0/8'' @ [DQ] @ '', '' @ [DQ] @ ''127.0.0.1'' @ [DQ] @ '']''] else [])
     @ (if existsSync (path_join folder ''plugins/opensearch-sql'') fs
        then [''script.context.field.max_compilations_rate: 1000/1m''] else [])"

definition configurePerformanceAnalyzer :: "string \<Rightarrow> sys \<Rightarrow> reject_reason + sys" where
  "configurePerformanceAnalyzer folder fs =
     (if \<not> existsSync (path_join folder ''plugins/opensearch-performance-analyzer'') fs then Inr fs
      else
        (let paPropsFile = path_join folder
               ''config/opensearch-performance-analyzer/performance-analyzer.properties''
         in if existsSync paPropsFile fs
            then fs_try (appendToFile paPropsFile [''webservice-bind-host = 0.0.0.0''] fs)
            else bind_err (fs_try (mkdir_p (path_join folder ''config/opensearch-performance-analyzer'') fs))
                   (\<lambda>fs1. fs_try (writeFile paPropsFile ''webservice-bind-host = 0.0.0.0'' fs1))))"

definition configureOpenSearch :: "host_env \<Rightarrow> string \<Rightarrow> options \<Rightarrow> sys \<Rightarrow> reject_reason + sys" where
  "configureOpenSearch env folder opts fs =
     (let configFile = path_join folder ''config/opensearch.yml''
      in bind_err (configureOpenSearchCerts env folder fs) (\<lambda>(c, fs1).
         bind_err (fs_try (deleteFromFile configFile
                     [''network.host'', ''discovery.type'',
                      ''cluster.routing.allocation.disk.threshold_enabled''] fs1)) (\<lambda>fs2.
         bind_err (configureSecurity env folder opts c fs2) (\<lambda>(secParams, fs3).
         bind_err (configurePerformanceAnalyzer folder fs3) (\<lambda>fs4.
           fs_try (appendToFile configFile
                     ([''network.host: '' @ opensearchHost opts,
                       ''http.port: '' @ opensearchPort opts,
                       ''discovery.type: single-node'',
                       ''cluster.routing.allocation.disk.threshold_enabled: false'']
                      @ secParams @ pluginParams env folder fs3) fs4))))))"

definition prepareOpenSearch :: "nat \<Rightarrow> host_env \<Rightarrow> options \<Rightarrow> sys \<Rightarrow> string option settled \<times> sys" where
  \<comment> \<open>the resolved value is the installation directory, or undefined when skipped\<close>
  "prepareOpenSearch fuel env opts fs =
     (if \<not> isVersion_js (opensearchVersion opts) then (Resolved None, fs)
      else
        (let version = js_str (opensearchVersion opts);
             osDir = path_join (destination opts) (''OpenSearch-v'' @ version)
         in case downloadOpenSearch fuel env version (refreshDownloads opts) fs of
              (Resolved archive, fs1) \<Rightarrow>
                (case unarchive env archive osDir fs1 of
                   None \<Rightarrow> (Rejected (ErrorMessage ''The downloaded OpenSearch artifact appears to have been corrupted.''), fs1)
                 | Some fs2 \<Rightarrow>
                     (case configureOpenSearch env osDir opts fs2 of
                        Inl e \<Rightarrow> (Rejected e, fs2)
                      | Inr fs3 \<Rightarrow> (Resolved (Some osDir), fs3)))
            | (Rejected r, fs1) \<Rightarrow> (Rejected r, fs1)
            | (Pending, fs1) \<Rightarrow> (Pending, fs1)
            | (Uncaught, fs1) \<Rightarrow> (Uncaught, fs1)))"

section \<open>lib/dashboards.js: configuring the dashboards\<close>

definition linesToDelete :: "options \<Rightarrow> string list" where
  "linesToDelete opts =
     [''server.host'', ''server.port'', ''opensearch.ssl.verificationMode'',
      ''opensearch.ignoreVersionMismatch'', ''savedObjects.maxImportPayloadBytes'',
      ''server.maxPayloadBytes'', ''logging.json'', ''data.search.aggs.shardDelay.enabled'',
      ''csp.warnLegacyBrowsers'', ''opensearch.hosts'', ''opensearch.username'',
      ''opensearch.password'']
     @ (if \<not> security opts then [''opensearch_security.''] else [])"

definition configParams :: "options \<Rightarrow> string list" where
  "configParams opts =
     [''server.host: '' @ dashboardsHost opts,
      ''server.port: '' @ dashboardsPort opts,
      ''opensearch.ssl.verificationMode: none'',
      ''opensearch.ignoreVersionMismatch: true'',
      ''savedObjects.maxImportPayloadBytes: 10485760'',
      ''server.maxPayloadBytes: 1759977'',
      ''logging.json: false'',
      ''data.search.aggs.shardDelay.enabled: true'',
      ''csp.warnLegacyBrowsers: false'']
     @ (if security opts
        then [''opensearch.hosts: ['' @ [DQ] @ ''https://'' @ opensearchHost opts @ '':'' @ opensearchPort opts @ [DQ] @ '']'',
              ''opensearch.username: '' @ [DQ] @ username opts @ [DQ],
              ''opensearch.password: '' @ [DQ] @ js_str (password opts) @ [DQ]]
        else [''opensearch.hosts: ['' @ [DQ] @ ''http://'' @ opensearchHost opts @ '':'' @ opensearchPort opts @ [DQ] @ '']''])"

definition configureDashboards :: "string \<Rightarrow> options \<Rightarrow> sys \<Rightarrow> reject_reason + sys" where
  "configureDashboards folder opts fs =
     (let configFile = path_join folder ''config/opensearch_dashboards.yml''
      in bind_err (fs_try (deleteFromFile configFile (linesToDelete opts) fs)) (\<lambda>fs1.
           fs_try (appendToFile configFile (configParams opts)
                     (if security opts then fs1
                      else rm_rf (path_join folder ''plugins/securityDashboards'') fs1))))"

section \<open>Resolving plugin sources\<close>

text \<open>
  The project table is read from the configuration directory and is a parameter here.
  \<^verbatim>\<open>projectSlugs\<close> is a plain object, filled in the table's order by
  \<^verbatim>\<open>projectSlugs[slug] = { slug, name, src, releaseName }\<close>, a later entry replacing an
  earlier one with the same slug. Reading \<^verbatim>\<open>projectSlugs[key]\<close> therefore also finds what
  the object inherits: the members of \<^verbatim>\<open>Object.prototype\<close>, and, since an assignment to
  the key \<^verbatim>\<open>__proto__\<close> replaces the prototype instead of adding an entry, the fields of
  a table entry with that slug. A \<open>slot\<close> is what such a read finds when it is truthy: an
  entry of the table, or an inherited value, of which only the \<^verbatim>\<open>name\<close> property matters
  (it has no \<^verbatim>\<open>src\<close>).
\<close>

record project =
  slug :: string
  name :: string
  src :: string
  releaseName :: "string option"

record source_ref =
  user :: "string option"
  repo :: "string option"
  branch :: "string option"

datatype source_error =
    UnknownKey string
  | FailedToFindSource "string option" "string option" "string option"
  | TypeError

datatype slot = Own project | Inherited "string option"

definition object_prototype_functions :: "string list" where
  \<comment> \<open>the function-valued members of \<^verbatim>\<open>Object.prototype\<close>\<close>
  "object_prototype_functions =
     [''constructor'', ''__defineGetter__'', ''__defineSetter__'', ''hasOwnProperty'',
      ''__lookupGetter__'', ''__lookupSetter__'', ''isPrototypeOf'', ''propertyIsEnumerable'',
      ''toString'', ''valueOf'', ''toLocaleString'']"

definition own_entries :: "project list \<Rightarrow> string \<rightharpoonup> project" where
  \<comment> \<open>the object's own properties\<close>
  "own_entries projects =
     fold (\<lambda>p m. if slug p = ''__proto__'' then m else m(slug p \<mapsto> p)) projects Map.empty"

definition proto_entry :: "project list \<Rightarrow> project option" where
  \<comment> \<open>the table entry that became the object's prototype, if any\<close>
  "proto_entry projects =
     fold (\<lambda>p r. if slug p = ''__proto__'' then Some p else r) projects None"

definition proto_field :: "project \<Rightarrow> string \<Rightarrow> string option" where
  \<comment> \<open>a field of the entry that is the prototype, read as a property\<close>
  "proto_field p key =
     (if key = ''slug'' then Some (slug p)
      else if key = ''name'' then Some (name p)
      else if key = ''src'' then Some (src p)
      else if key = ''releaseName'' then releaseName p
      else None)"

definition projectSlugs :: "project list \<Rightarrow> string \<rightharpoonup> slot" where
  \<comment> \<open>\<^verbatim>\<open>projectSlugs[key]\<close>, \<open>None\<close> when the value is undefined or falsy; the name of
      the function \<^verbatim>\<open>Object.prototype.constructor\<close> is \<^verbatim>\<open>Object\<close>, the name of any other
      function of the prototype is its key\<close>
  "projectSlugs projects key =
     (case own_entries projects key of
        Some p \<Rightarrow> Some (Own p)
      | None \<Rightarrow>
          if key = ''__proto__''
          then (case proto_entry projects of
                  Some p \<Rightarrow> Some (Own p)
                | None \<Rightarrow> Some (Inherited None))
          else if (case proto_entry projects of
                     Some p \<Rightarrow> truthy_str (proto_field p key)
                   | None \<Rightarrow> False)
          then Some (Inherited None)
          else if key \<in> set object_prototype_functions
          then Some (Inherited (Some (if key = ''constructor'' then ''Object'' else key)))
          else None)"

definition slot_name :: "slot \<Rightarrow> string option" where
  \<comment> \<open>\<^verbatim>\<open>projectSlugs[slug].name\<close>\<close>
  "slot_name sl = (case sl of Own p \<Rightarrow> Some (name p) | Inherited n \<Rightarrow> n)"

definition strip_github :: "string \<Rightarrow> string" where
  \<comment> \<open>\<^verbatim>\<open>.replace(/^github:(\/\/)?/i, '')\<close>\<close>
  "strip_github s =
     (if map to_lower (take 7 s) = ''github:''
      then (let r = drop 7 s in if startsWith r ''//'' then drop 2 r else r)
      else s)"

definition strip_github_colon :: "string \<Rightarrow> string" where
  \<comment> \<open>\<^verbatim>\<open>.replace(/^github:/i, '')\<close>\<close>
  "strip_github_colon s = (if map to_lower (take 7 s) = ''github:'' then drop 7 s else s)"

definition getOfficialSource :: "project list \<Rightarrow> string \<Rightarrow> string option \<Rightarrow> source_error + source_ref" where
  \<comment> \<open>an inherited value has no \<^verbatim>\<open>src\<close>, and \<^verbatim>\<open>undefined.replace\<close> throws\<close>
  "getOfficialSource projects slug' requestedBranch =
     (case projectSlugs projects slug' of
        None \<Rightarrow> Inl (UnknownKey slug')
      | Some (Inherited n) \<Rightarrow> Inl TypeError
      | Some (Own p) \<Rightarrow>
          (let parts = split (CHR ''/'') (strip_github_colon (src p))
           in Inr \<lparr>user = nth_opt parts 0,
                   repo = nth_opt parts 1,
                   branch = (if truthy_str requestedBranch then requestedBranch
                             else nth_opt parts 2)\<rparr>))"

definition getSource :: "project list \<Rightarrow> string \<Rightarrow> string option \<Rightarrow> string option \<Rightarrow> source_error + source_ref" where
  "getSource projects slug' requestedSource osdBranch =
     (case projectSlugs projects slug' of
        None \<Rightarrow> Inl (UnknownKey slug')
      | Some sl \<Rightarrow>
          (case map_option (\<lambda>r. strip_github (trim r)) requestedSource of
             Some (c # cs) \<Rightarrow>
               (let parts = split (CHR ''/'') (c # cs);
                    user' = nth_opt parts 0;
                    repo' = nth_opt parts 1;
                    branch' = nth_opt parts 2
                in if truthy_str user' \<and> truthy_str repo' \<and> truthy_str branch'
                   then Inr \<lparr>user = user', repo = repo', branch = branch'\<rparr>
                   else if truthy_str user' \<and> repo' = None \<and> branch' = None
                   then getOfficialSource projects slug' branch'
                   else Inl (FailedToFindSource (slot_name sl) requestedSource osdBranch))
           | _ \<Rightarrow>
               if truthy_str osdBranch then getOfficialSource projects slug' osdBranch
               else getOfficialSource projects slug' None))"

section \<open>Health probes\<close>

text \<open>
  A probe sends one GET request. \<open>respond\<close> is the network's answer to it and
  \<open>JSON_parse\<close> the parser, \<open>None\<close> where it throws. The \<^verbatim>\<open>Authorization\<close> header is kept
  as the pair that is encoded into it.
\<close>

datatype scheme = HTTP | HTTPS

record request =
  req_scheme :: scheme
  req_host :: string
  req_port :: string
  req_path :: string
  req_auth :: "(string \<times> string) option"
  req_rejectUnauthorized :: bool

record net_env =
  respond :: "request \<Rightarrow> net_reply"
  JSON_parse :: "string \<Rightarrow> json option"

definition json_content :: "http_response \<Rightarrow> bool option" where
  \<comment> \<open>\<^verbatim>\<open>contentType.includes('application/json')\<close>; \<open>None\<close> when there is no such header\<close>
  "json_content response =
     map_option (\<lambda>ct. str_includes ct ''application/json'') (headers response ''content-type'')"

definition dashboardsRequest :: "options \<Rightarrow> request" where
  "dashboardsRequest opts =
     \<lparr>req_scheme = HTTP, req_host = dashboardsHost opts, req_port = dashboardsPort opts,
      req_path = ''/api/status'',
      req_auth = (if security opts then Some (username opts, js_str (password opts)) else None),
      req_rejectUnauthorized = True\<rparr>"

definition overall_state :: "json \<Rightarrow> jsval" where
  \<comment> \<open>\<^verbatim>\<open>json?.status?.overall?.state\<close>\<close>
  "overall_state j = opt_get (opt_get (opt_get (Val j) ''status'') ''overall'') ''state''"

definition checkDashboardsHealth :: "net_env \<Rightarrow> options \<Rightarrow> bool option settled" where
  \<comment> \<open>every exception is caught and the function then returns undefined\<close>
  "checkDashboardsHealth net opts =
     (case respond net (dashboardsRequest opts) of
        NetError msg \<Rightarrow> Resolved None
      | Reply response \<Rightarrow>
          (case json_content response of
             None \<Rightarrow> Resolved None
           | Some False \<Rightarrow> Resolved None
           | Some True \<Rightarrow>
               if \<not> ended response then Resolved None
               else
                 (case JSON_parse net (concat (chunks response)) of
                    None \<Rightarrow> Resolved None
                  | Some j \<Rightarrow> Resolved (Some (overall_state j = Val (JStr ''green''))))))"

definition opensearchRequest :: "options \<Rightarrow> request" where
  "opensearchRequest opts =
     (if security opts
      then \<lparr>req_scheme = HTTPS, req_host = opensearchHost opts, req_port = opensearchPort opts,
            req_path = ''/_cluster/health'',
            req_auth = Some (username opts, js_str (password opts)),
            req_rejectUnauthorized = False\<rparr>
      else \<lparr>req_scheme = HTTP, req_host = opensearchHost opts, req_port = opensearchPort opts,
            req_path = ''/_cluster/health'', req_auth = None, req_rejectUnauthorized = True\<rparr>)"

definition status_healthy :: "jsval \<Rightarrow> bool" where
  \<comment> \<open>\<^verbatim>\<open>['green', 'yellow'].includes(status)\<close>\<close>
  "status_healthy status = (status = Val (JStr ''green'') \<or> status = Val (JStr ''yellow''))"

definition checkOpenSearchHealth :: "net_env \<Rightarrow> options \<Rightarrow> bool option settled" where
  \<comment> \<open>with security the request goes through \<^verbatim>\<open>https.get\<close>, whose \<^verbatim>\<open>end\<close> handler parses
      the body outside the promise; without it, through \<^verbatim>\<open>fetch\<close>\<close>
  "checkOpenSearchHealth net opts =
     (case respond net (opensearchRequest opts) of
        NetError msg \<Rightarrow> Resolved None
      | Reply response \<Rightarrow>
          if security opts
          then
            (if statusCode response \<noteq> 200 then Resolved None
             else if json_content response \<noteq> Some True then Resolved None
             else if \<not> ended response then Pending
             else
               (case JSON_parse net (concat (chunks response)) of
                  None \<Rightarrow> Uncaught
                | Some j \<Rightarrow> Resolved (Some (status_healthy (opt_get (Val j) ''status'')))))
          else
            (case json_content response of
               None \<Rightarrow> Resolved None
             | Some False \<Rightarrow> Resolved None
             | Some True \<Rightarrow>
                 if \<not> ended response then Resolved None
                 else
                   (case JSON_parse net (concat (chunks response)) of
                      None \<Rightarrow> Resolved None
                    | Some j \<Rightarrow> Resolved (Some (status_healthy (opt_get (Val j) ''status''))))))"

section \<open>Child processes and the shutdown registry\<close>

text \<open>
  A \<^verbatim>\<open>ChildProcess\<close> object lives in the store \<open>objs\<close> under a reference; the module-level
  array \<^verbatim>\<open>subprocesses\<close> holds references, \<open>None\<close> standing for a falsy entry. \<open>next_ref\<close>
  is the next free reference. \<open>syscalls\<close> lists the calls of \<^verbatim>\<open>process.kill\<close> in order,
  \<open>timers\<close> the pending \<^verbatim>\<open>setTimeout\<close> callbacks of the registry with their delay and the
  process they close over, and \<open>console\<close> what \<^verbatim>\<open>console.error\<close> printed. \<open>now\<close> is
  \<^verbatim>\<open>Date.now()\<close>, in milliseconds.
\<close>

datatype signal = SIGTERM | SIGKILL | SIG0

datatype errno = ESRCH | EPERM | EINVAL

record ChildProcess =
  pid :: nat
  spawnfile :: string
  spawnargs :: "string list"
  cwd :: string
  detached :: bool
  stdout_piped :: bool
  stderr_piped :: bool
  kill_calls :: "signal list"
  refd :: bool

record world =
  now :: int
  objs :: "nat \<Rightarrow> ChildProcess"
  next_ref :: nat
  subprocesses :: "nat option list"
  syscalls :: "(int \<times> signal) list"
  timers :: "(int \<times> nat) list"
  console :: "errno list"

text \<open>
  The operating system's answer to \<^verbatim>\<open>process.kill(target, signal)\<close>: \<open>None\<close> when the
  signal is delivered, otherwise the code of the error thrown. A negative target is a
  process group.
\<close>

type_synonym oskill = "int \<Rightarrow> signal \<Rightarrow> errno option"

definition process_kill :: "oskill \<Rightarrow> int \<Rightarrow> signal \<Rightarrow> world \<Rightarrow> errno option \<times> world" where
  \<comment> \<open>the first component is the exception thrown, if any\<close>
  "process_kill os target sig w =
     (os target sig, w\<lparr>syscalls := syscalls w @ [(target, sig)]\<rparr>)"

subsection \<open>lib/subprocess.js\<close>

definition recordProcess :: "nat \<Rightarrow> world \<Rightarrow> world" where
  "recordProcess p w = w\<lparr>subprocesses := subprocesses w @ [Some p]\<rparr>"

definition unref :: "nat \<Rightarrow> world \<Rightarrow> world" where
  "unref p w = w\<lparr>objs := (objs w)(p := (objs w p)\<lparr>refd := False\<rparr>)\<rparr>"

definition isProcessAlive :: "oskill \<Rightarrow> nat \<Rightarrow> world \<Rightarrow> bool \<times> world" where
  "isProcessAlive os pid' w =
     (if pid' = 0 then (True, w)
      else
        (case process_kill os (int pid') SIG0 w of
           (None, w') \<Rightarrow> (True, w')
         | (Some err, w') \<Rightarrow> (err = EPERM, w')))"

definition sigkill_timer :: "oskill \<Rightarrow> nat \<Rightarrow> world \<Rightarrow> errno option \<times> world" where
  \<comment> \<open>the callback that \<^verbatim>\<open>killSubprocesses\<close> hands to \<^verbatim>\<open>setTimeout\<close>, run when it is due\<close>
  "sigkill_timer os p w =
     (case isProcessAlive os (pid (objs w p)) w of
        (True, w1) \<Rightarrow> process_kill os (- int (pid (objs w1 p))) SIGKILL w1
      | (False, w1) \<Rightarrow> (None, w1))"

definition kill_entry :: "oskill \<Rightarrow> nat option \<Rightarrow> world \<Rightarrow> errno option \<times> world" where
  \<comment> \<open>the body of the loop of \<^verbatim>\<open>killSubprocesses\<close>\<close>
  "kill_entry os entry w =
     (case entry of
        None \<Rightarrow> (None, w)
      | Some p \<Rightarrow>
          (let w1 = unref p w
           in case process_kill os (- int (pid (objs w1 p))) SIGTERM w1 of
                (None, w2) \<Rightarrow> (None, w2\<lparr>timers := timers w2 @ [(5000, p)]\<rparr>)
              | (Some ex, w2) \<Rightarrow>
                  (None, if ex \<noteq> ESRCH then w2\<lparr>console := console w2 @ [ex]\<rparr> else w2)))"

fun for_of :: "('a \<Rightarrow> world \<Rightarrow> errno option \<times> world) \<Rightarrow> 'a list \<Rightarrow> world \<Rightarrow> errno option \<times> world" where
  \<comment> \<open>\<^verbatim>\<open>for (const x of xs) body\<close>: an exception leaving the body ends the loop\<close>
  "for_of body [] w = (None, w)"
| "for_of body (x # xs) w =
     (case body x w of
        (Some ex, w') \<Rightarrow> (Some ex, w')
      | (None, w') \<Rightarrow> for_of body xs w')"

definition killSubprocesses :: "oskill \<Rightarrow> world \<Rightarrow> errno option \<times> world" where
  "killSubprocesses os w = for_of (kill_entry os) (subprocesses w) w"

definition registered :: "nat option list \<Rightarrow> nat list" where
  \<comment> \<open>the entries that are processes, in order\<close>
  "registered entries = concat (map (\<lambda>e. case e of None \<Rightarrow> [] | Some p \<Rightarrow> [p]) entries)"

section \<open>The supervisor's poll loop\<close>

text \<open>
  What happens around the \<open>i\<close>-th probe: how long the awaited health check takes, and
  whether the child's \<^verbatim>\<open>close\<close> event is delivered while the check, and while the timer
  after it, is awaited. The timer of \<^verbatim>\<open>timers/promises\<close> resolves when it is due; a delay
  below one millisecond is one millisecond.
\<close>

record probe_obs =
  latency :: nat
  closes_in_probe :: bool
  closes_in_wait :: bool

record loop_vars =
  closed :: bool
  running :: bool

definition on_close :: "loop_vars \<Rightarrow> loop_vars" where
  \<comment> \<open>the \<^verbatim>\<open>close\<close> listener\<close>
  "on_close v = (if \<not> running v then v\<lparr>closed := True\<rparr> else v)"

definition deliver :: "bool \<Rightarrow> loop_vars \<Rightarrow> loop_vars" where
  "deliver fires v = (if fires then on_close v else v)"

definition timer_delay :: "int \<Rightarrow> int" where
  "timer_delay d = (if d < 1 then 1 else d)"

definition unpipe :: "nat \<Rightarrow> world \<Rightarrow> world" where
  \<comment> \<open>\<^verbatim>\<open>child.stdout.unpipe(process.stdout); child.stderr.unpipe(process.stderr)\<close>\<close>
  "unpipe p w = w\<lparr>objs := (objs w)(p := (objs w p)\<lparr>stdout_piped := False, stderr_piped := False\<rparr>)\<rparr>"

definition child_kill :: "nat \<Rightarrow> signal \<Rightarrow> world \<Rightarrow> world" where
  \<comment> \<open>\<^verbatim>\<open>child.kill(signal)\<close>, which does not throw\<close>
  "child_kill p sig w = w\<lparr>objs := (objs w)(p := (objs w p)\<lparr>kill_calls := kill_calls (objs w p) @ [sig]\<rparr>)\<rparr>"

text \<open>
  The \<^verbatim>\<open>do ... while (true)\<close> loop shared by \<^verbatim>\<open>runOpenSearch\<close> and \<^verbatim>\<open>runDashboards\<close>.
  \<open>check i\<close> is how the \<open>i\<close>-th call of the health check settles. The state is the
  number of probes made, the listener's variables and the world; the result is what the
  function's promise settles to (the child, or undefined), the number of probes made and
  the world. Log output is left out.
\<close>

function poll_loop :: "(nat \<Rightarrow> probe_obs) \<Rightarrow> (nat \<Rightarrow> bool option settled) \<Rightarrow> nat \<Rightarrow> nat \<Rightarrow> int
    \<Rightarrow> nat \<Rightarrow> loop_vars \<Rightarrow> world \<Rightarrow> nat option settled \<times> nat \<times> world" where
  "poll_loop obs check timeoutSeconds child timerStart i v w =
     (let tryStart = now w;
          w1 = w\<lparr>now := now w + int (latency (obs i))\<rparr>;
          v1 = deliver (closes_in_probe (obs i)) v
      in case check i of
           Pending \<Rightarrow> (Pending, Suc i, w)
         | Uncaught \<Rightarrow> (Uncaught, Suc i, w1)
         | Rejected r \<Rightarrow> (Rejected r, Suc i, w1)
         | Resolved healthy \<Rightarrow>
             if healthy = Some True
             then (Resolved (Some child), Suc i, recordProcess child (unpipe child w1))
             else if closed v1 \<or> now w1 - timerStart > int timeoutSeconds * 1000
             then (Resolved None, Suc i, unref child (child_kill child SIGTERM w1))
             else poll_loop obs check timeoutSeconds child timerStart (Suc i)
                    (deliver (closes_in_wait (obs i)) v1)
                    (w1\<lparr>now := now w1 + timer_delay (5000 - now w1 + tryStart)\<rparr>))"
  by pat_completeness auto
termination
  by (relation "measure (\<lambda>(obs, check, timeoutSeconds, child, timerStart, i, v, w).
        nat (int timeoutSeconds * 1000 + 1 - (now w - timerStart)))")
     (auto simp: timer_delay_def)

declare poll_loop.simps [simp del]

definition spawn :: "nat \<Rightarrow> string \<Rightarrow> string list \<Rightarrow> string \<Rightarrow> world \<Rightarrow> nat \<times> world" where
  \<comment> \<open>\<^verbatim>\<open>spawn(command, args, { cwd, stdio: ['ignore', 'pipe', 'pipe'], detached: true })\<close>
      followed by the two \<^verbatim>\<open>pipe\<close> calls; the first argument is the process id the
      operating system assigns\<close>
  "spawn pid' command args dir w =
     (next_ref w,
      w\<lparr>objs := (objs w)(next_ref w :=
            \<lparr>pid = pid', spawnfile = command, spawnargs = args, cwd = dir, detached = True,
             stdout_piped = True, stderr_piped = True, kill_calls = [], refd = True\<rparr>),
        next_ref := Suc (next_ref w)\<rparr>)"

record run_env =
  win32 :: bool
  spawn_pid :: nat
  observe :: "nat \<Rightarrow> probe_obs"
  network :: "nat \<Rightarrow> net_env"

definition runOpenSearch :: "run_env \<Rightarrow> string \<Rightarrow> nat \<Rightarrow> options \<Rightarrow> world \<Rightarrow> nat option settled \<times> nat \<times> world" where
  "runOpenSearch env folder timeoutSeconds opts w =
     (let executable = (if win32 env then ''opensearch.bat'' else ''opensearch'');
          (child, w1) = spawn (spawn_pid env) (path_join (path_join folder ''bin'') executable) [] folder w
      in poll_loop (observe env) (\<lambda>i. checkOpenSearchHealth (network env i) opts)
           timeoutSeconds child (now w1) 0 \<lparr>closed = False, running = False\<rparr> w1)"

definition runDashboards :: "run_env \<Rightarrow> string \<Rightarrow> nat \<Rightarrow> options \<Rightarrow> world \<Rightarrow> nat option settled \<times> nat \<times> world" where
  "runDashboards env folder timeoutSeconds opts w =
     (let (spawnCmd, spawnArgs) =
            (if isVersion_js (dashboardsVersion opts) \<or> build opts
             then (path_join (path_join folder ''bin'')
                     (if win32 env then ''opensearch-dashboards.bat'' else ''opensearch-dashboards''), [])
             else (''yarn'', [''start'', ''--no-base-path'']));
          (child, w1) = spawn (spawn_pid env) spawnCmd spawnArgs folder w
      in poll_loop (observe env) (\<lambda>i. checkDashboardsHealth (network env i) opts)
           timeoutSeconds child (now w1) 0 \<lparr>closed = False, running = False\<rparr> w1)"

section \<open>Concrete inputs\<close>

text \<open>The installations, environments and worlds at which the theorems below are evaluated.\<close>

definition opts_plain :: options where
  "opts_plain = \<lparr>destination = ''/srv'', opensearchVersion = Some ''2.13.0'',
     dashboardsVersion = Some ''2.13.0'', refreshDownloads = False, security = False,
     opensearchHost = ''127.0.0.1'', opensearchPort = ''9200'', dashboardsHost = ''0.0.0.0'',
     dashboardsPort = ''5601'', username = ''admin'', password = None, build = False\<rparr>"

definition opts_secure :: options where
  "opts_secure = opts_plain\<lparr>security := True, password := Some ''s3cret''\<rparr>"

definition proc_a :: ChildProcess where
  "proc_a = \<lparr>pid = 42, spawnfile = ''/srv/OpenSearch-v2.13.0/bin/opensearch'', spawnargs = [],
     cwd = ''/srv/OpenSearch-v2.13.0'', detached = True, stdout_piped = False,
     stderr_piped = False, kill_calls = [], refd = True\<rparr>"

definition proc_b :: ChildProcess where
  "proc_b = proc_a\<lparr>pid := 77, spawnfile := ''/srv/Dashboards-v2.13.0/bin/opensearch-dashboards'',
     cwd := ''/srv/Dashboards-v2.13.0''\<rparr>"

definition world_empty :: world where
  "world_empty = \<lparr>now = 0, objs = (\<lambda>r. proc_a), next_ref = 0, subprocesses = [],
     syscalls = [], timers = [], console = []\<rparr>"

definition world_two :: world where
  \<comment> \<open>both services are registered\<close>
  "world_two = \<lparr>now = 0, objs = (\<lambda>r. if r = 0 then proc_a else proc_b), next_ref = 2,
     subprocesses = [Some 0, Some 1], syscalls = [], timers = [], console = []\<rparr>"

definition os_gone_first :: oskill where
  \<comment> \<open>the group of process 42 no longer exists\<close>
  "os_gone_first target sig = (if target = - 42 then Some ESRCH else None)"

definition os_probe_gone :: oskill where
  \<comment> \<open>the zero-signal probe finds no process\<close>
  "os_probe_gone target sig = (if sig = SIG0 then Some ESRCH else None)"

definition os_eperm :: oskill where
  \<comment> \<open>the zero-signal probe is answered with permission denied\<close>
  "os_eperm target sig = (if sig = SIG0 then Some EPERM else None)"

definition json_reply :: "nat \<Rightarrow> string \<Rightarrow> net_reply" where
  "json_reply code body = Reply \<lparr>statusCode = code, statusMessage = ''-'',
     headers = [''content-type'' \<mapsto> ''application/json; charset=UTF-8''],
     chunks = [body], ended = True\<rparr>"

definition parse_stub :: "string \<Rightarrow> json option" where
  \<comment> \<open>the parser's result on the four bodies the examples use\<close>
  "parse_stub body =
     (if body = ''os-green'' then Some (JObj [(''status'', JStr ''green'')])
      else if body = ''os-red'' then Some (JObj [(''status'', JStr ''red'')])
      else if body = ''osd-green''
      then Some (JObj [(''status'', JObj [(''overall'', JObj [(''state'', JStr ''green'')])])])
      else if body = ''osd-red''
      then Some (JObj [(''status'', JObj [(''overall'', JObj [(''state'', JStr ''red'')])])])
      else None)"

definition net_of :: "nat \<Rightarrow> bool \<Rightarrow> net_env" where
  \<comment> \<open>both services answer with the given status code and are green or red\<close>
  "net_of code healthy =
     \<lparr>respond = (\<lambda>req. json_reply code
          (if req_path req = ''/api/status''
           then (if healthy then ''osd-green'' else ''osd-red'')
           else (if healthy then ''os-green'' else ''os-red''))),
      JSON_parse = parse_stub\<rparr>"

definition obs_of :: "nat \<Rightarrow> bool \<Rightarrow> probe_obs" where
  "obs_of ms closes = \<lparr>latency = ms, closes_in_probe = closes, closes_in_wait = False\<rparr>"

definition vars_start :: loop_vars where
  "vars_start = \<lparr>closed = False, running = False\<rparr>"

definition env_late :: run_env where
  \<comment> \<open>the service stays red, the child never closes, every probe is immediate but the
      third, which takes one millisecond\<close>
  "env_late = \<lparr>win32 = False, spawn_pid = 42,
     observe = (\<lambda>i. obs_of (if i = 2 then 1 else 0) False),
     network = (\<lambda>i. net_of 200 False)\<rparr>"

definition env_red :: run_env where
  \<comment> \<open>the service stays red, the child never closes, a probe takes 20 ms\<close>
  "env_red = \<lparr>win32 = False, spawn_pid = 42,
     observe = (\<lambda>i. obs_of 20 False), network = (\<lambda>i. net_of 200 False)\<rparr>"

definition env_third :: run_env where
  \<comment> \<open>red twice, then green\<close>
  "env_third = \<lparr>win32 = False, spawn_pid = 42,
     observe = (\<lambda>i. obs_of 20 False), network = (\<lambda>i. net_of 200 (2 \<le> i))\<rparr>"

definition env_closed :: run_env where
  \<comment> \<open>the child exits while the first probe is awaited\<close>
  "env_closed = \<lparr>win32 = False, spawn_pid = 42,
     observe = (\<lambda>i. obs_of 20 True), network = (\<lambda>i. net_of 200 False)\<rparr>"

definition redirect_reply :: "string \<Rightarrow> net_reply" where
  "redirect_reply loc = Reply \<lparr>statusCode = 302, statusMessage = ''Found'',
     headers = [''location'' \<mapsto> loc], chunks = [], ended = True\<rparr>"

definition body_reply :: "string list \<Rightarrow> net_reply" where
  "body_reply cs = Reply \<lparr>statusCode = 200, statusMessage = ''OK'', headers = Map.empty,
     chunks = cs, ended = True\<rparr>"

definition env_host :: host_env where
  \<comment> \<open>a Linux host; the release URL redirects once to a mirror that sends two chunks\<close>
  "env_host = \<lparr>PLATFORM = ''linux'', ARCH = ''x64'', EXTENSION = ''tar.gz'', DIST_TYPE = ''tar'',
     tmpDir = ''/home/u/.osd-launcher'', os_tmpdir = ''/tmp'',
     http_get = (\<lambda>url. if url = ''https://mirror/os.tar.gz'' then body_reply [''ab'', ''cd'']
                       else redirect_reply ''https://mirror/os.tar.gz''),
     resolveURL = (\<lambda>loc base. loc),
     write_fails_at = None, rename_fails = False,
     extract_archive = (\<lambda>archive dest fs.
        Some (fs\<lparr>files := (files fs)(path_join dest ''config/opensearch.yml'' \<mapsto>
                 ''#network.host: 192.168.0.1'' @ [LF] @ ''#http.port: 9200'' @ [LF])\<rparr>)),
     openssl = (\<lambda>dest fs. Some fs),
     bcrypt = (\<lambda>pw. ''$2y$12$hash'')\<rparr>"

definition env_disk_full :: host_env where
  \<comment> \<open>the same host, where the write of the second chunk fails\<close>
  "env_disk_full = env_host\<lparr>write_fails_at := Some 1\<rparr>"

definition cache_file :: string where
  "cache_file = ''/home/u/.osd-launcher/opensearch-2.13.0.tar.gz''"

definition fs_cached :: sys where
  \<comment> \<open>an earlier download is in the cache\<close>
  "fs_cached = \<lparr>files = [cache_file \<mapsto> ''old''],
     is_dir = (\<lambda>p. p = ''/home/u/.osd-launcher''), http_log = []\<rparr>"

definition projects_demo :: "project list" where
  \<comment> \<open>two entries in the form the project table has\<close>
  "projects_demo =
     [\<lparr>slug = ''dashboards'', name = ''Dashboards'',
       src = ''github:opensearch-project/OpenSearch-Dashboards/main'', releaseName = None\<rparr>,
      \<lparr>slug = ''maps'', name = ''Maps'',
       src = ''github:opensearch-project/dashboards-maps/main'', releaseName = Some ''customImportMapDashboards''\<rparr>]"

definition net_down :: net_env where
  "net_down = \<lparr>respond = (\<lambda>req. NetError ''ECONNREFUSED''), JSON_parse = parse_stub\<rparr>"

definition net_html :: net_env where
  \<comment> \<open>a proxy's error page\<close>
  "net_html = \<lparr>respond = (\<lambda>req. Reply \<lparr>statusCode = 502, statusMessage = ''Bad Gateway'',
       headers = [''content-type'' \<mapsto> ''text/html''], chunks = [''<html></html>''], ended = True\<rparr>),
     JSON_parse = parse_stub\<rparr>"

definition os_yml :: string where
  "os_yml = ''/srv/OpenSearch-v2.13.0/config/opensearch.yml''"

definition fs_installed :: sys where
  \<comment> \<open>an unpacked search engine with no plugin directory\<close>
  "fs_installed = \<lparr>files = [os_yml \<mapsto> ''cluster.name: demo'' @ [LF]],
     is_dir = (\<lambda>p. False), http_log = []\<rparr>"

definition configured_twice :: "sys option" where
  "configured_twice =
     (case configureOpenSearch env_host ''/srv/OpenSearch-v2.13.0'' opts_plain fs_installed of
        Inl e \<Rightarrow> None
      | Inr fs1 \<Rightarrow>
          (case configureOpenSearch env_host ''/srv/OpenSearch-v2.13.0'' opts_plain fs1 of
             Inl e \<Rightarrow> None
           | Inr fs2 \<Rightarrow> Some fs2))"

definition env_wait_close :: run_env where
  \<comment> \<open>the service stays red; the child exits during the wait that follows the first
      probe; the second probe takes three seconds\<close>
  "env_wait_close = \<lparr>win32 = False, spawn_pid = 42,
     observe = (\<lambda>i. if i = 0 then \<lparr>latency = 20, closes_in_probe = False, closes_in_wait = True\<rparr>
                     else obs_of 3000 False),
     network = (\<lambda>i. net_of 200 False)\<rparr>"

definition env_closed_green :: run_env where
  \<comment> \<open>the child exits while the first probe is awaited, and that probe finds the service
      green (another instance answers on the port)\<close>
  "env_closed_green = \<lparr>win32 = False, spawn_pid = 42,
     observe = (\<lambda>i. obs_of 20 True), network = (\<lambda>i. net_of 200 True)\<rparr>"

section \<open>The poll loop: one iteration\<close>

lemma poll_step_success:
  assumes "check i = Resolved (Some True)"
  shows "poll_loop obs check T child ts i v w =
           (Resolved (Some child), Suc i,
            recordProcess child (unpipe child (w\<lparr>now := now w + int (latency (obs i))\<rparr>)))"
  using assms by (subst poll_loop.simps) (simp add: Let_def)

lemma poll_step_fail:
  assumes "check i = Resolved h" and "h \<noteq> Some True"
    and "closed (deliver (closes_in_probe (obs i)) v)
         \<or> now w + int (latency (obs i)) - ts > int T * 1000"
  shows "poll_loop obs check T child ts i v w =
           (Resolved None, Suc i,
            unref child (child_kill child SIGTERM (w\<lparr>now := now w + int (latency (obs i))\<rparr>)))"
  using assms by (subst poll_loop.simps) (auto simp: Let_def)

lemma poll_step_continue:
  assumes "check i = Resolved h" and "h \<noteq> Some True"
    and "\<not> closed (deliver (closes_in_probe (obs i)) v)"
    and "now w + int (latency (obs i)) - ts \<le> int T * 1000"
  shows "poll_loop obs check T child ts i v w =
           poll_loop obs check T child ts (Suc i)
             (deliver (closes_in_wait (obs i)) (deliver (closes_in_probe (obs i)) v))
             (w\<lparr>now := now w + int (latency (obs i)) + timer_delay (5000 - int (latency (obs i)))\<rparr>)"
  using assms by (subst poll_loop.simps) (auto simp: Let_def)

lemma poll_failure_effects:
  "poll_loop obs check T child ts i v w = (Resolved None, n, w') \<Longrightarrow>
     kill_calls (objs w' child) = kill_calls (objs w child) @ [SIGTERM] \<and>
     \<not> refd (objs w' child) \<and>
     subprocesses w' = subprocesses w"
proof (induction obs check T child ts i v w rule: poll_loop.induct)
  case (1 obs check T child ts i v w)
  show ?case
  proof (cases "check i")
    case (Resolved h)
    show ?thesis
    proof (cases "h = Some True")
      case True
      then show ?thesis
        using "1.prems" Resolved poll_step_success [where check=check and i=i and obs=obs and v=v and w=w and ts=ts and T=T and child=child] by simp
    next
      case nottrue: False
      show ?thesis
      proof (cases "closed (deliver (closes_in_probe (obs i)) v)
                    \<or> now w + int (latency (obs i)) - ts > int T * 1000")
        case True
        then show ?thesis
          using "1.prems" Resolved nottrue
            poll_step_fail [where check=check and i=i and h=h and obs=obs and v=v and w=w and ts=ts and T=T and child=child]
          by (auto simp: unref_def child_kill_def)
      next
        case False
        have "poll_loop obs check T child ts (Suc i)
                (deliver (closes_in_wait (obs i)) (deliver (closes_in_probe (obs i)) v))
                (w\<lparr>now := now w + int (latency (obs i)) + timer_delay (5000 - int (latency (obs i)))\<rparr>)
              = (Resolved None, n, w')"
          using "1.prems" Resolved nottrue False
            poll_step_continue [where check=check and i=i and h=h and obs=obs and v=v and w=w and ts=ts and T=T and child=child]
          by simp
        then show ?thesis
          using "1.IH" [OF refl refl refl Resolved nottrue] False by simp
      qed
    qed
  next
    case Pending
    then show ?thesis using "1.prems" by (subst (asm) poll_loop.simps) (simp add: Let_def)
  next
    case Uncaught
    then show ?thesis using "1.prems" by (subst (asm) poll_loop.simps) (simp add: Let_def)
  next
    case (Rejected r)
    then show ?thesis using "1.prems" by (subst (asm) poll_loop.simps) (simp add: Let_def)
  qed
qed

lemma deliver_False: "deliver False v = v"
  by (simp add: deliver_def)

lemma timer_delay_le: "timer_delay (5000 - int l) \<le> 5000"
  by (simp add: timer_delay_def)

lemma poll_timeout_aux:
  assumes "\<forall>j. check j = Resolved (Some False)"
    and "\<forall>j. \<not> closes_in_probe (obs j) \<and> \<not> closes_in_wait (obs j)"
    and "\<not> closed v"
    and "now w - ts \<le> int T * 1000 + 5000"
    and "(\<forall>j<i. latency (obs j) < 5000) \<longrightarrow> now w = ts + 5000 * int i"
  shows "\<exists>n w'. poll_loop obs check T child ts i v w = (Resolved None, Suc n, w') \<and>
           int T * 1000 < now w' - ts \<and>
           now w' - ts \<le> int T * 1000 + 5000 + int (latency (obs n)) \<and>
           ((\<forall>j<n. latency (obs j) < 5000) \<longrightarrow>
              now w' - ts = 5000 * int n + int (latency (obs n)))"
  using assms
proof (induction obs check T child ts i v w rule: poll_loop.induct)
  case (1 obs check T child ts i v w)
  have chk: "check i = Resolved (Some False)" and ne: "Some False \<noteq> Some True"
    using "1.prems"(1) by simp_all
  have quiet: "deliver (closes_in_probe (obs i)) v = v" "deliver (closes_in_wait (obs i)) v = v"
    using "1.prems"(2) by (simp_all add: deliver_False)
  show ?case
  proof (cases "now w + int (latency (obs i)) - ts > int T * 1000")
    case True
    have "poll_loop obs check T child ts i v w =
            (Resolved None, Suc i,
             unref child (child_kill child SIGTERM (w\<lparr>now := now w + int (latency (obs i))\<rparr>)))"
      using chk ne True
        poll_step_fail [where check=check and i=i and h="Some False" and obs=obs and v=v and w=w
          and ts=ts and T=T and child=child]
      by simp
    then show ?thesis
      using True "1.prems"(4,5) by (simp add: unref_def child_kill_def)
  next
    case False
    let ?w1 = "w\<lparr>now := now w + int (latency (obs i))\<rparr>"
    let ?w2 = "w\<lparr>now := now w + int (latency (obs i)) + timer_delay (5000 - int (latency (obs i)))\<rparr>"
    have step: "poll_loop obs check T child ts i v w = poll_loop obs check T child ts (Suc i) v ?w2"
      using chk ne False "1.prems"(3) quiet
        poll_step_continue [where check=check and i=i and h="Some False" and obs=obs and v=v and w=w
          and ts=ts and T=T and child=child]
      by simp
    have a: "\<not> (closed (deliver (closes_in_probe (obs i)) v) \<or> int T * 1000 < now ?w1 - ts)"
      using False "1.prems"(3) quiet by simp
    have b: "\<not> closed (deliver (closes_in_wait (obs i)) (deliver (closes_in_probe (obs i)) v))"
      using "1.prems"(3) quiet by simp
    have c: "now (?w1\<lparr>now := now ?w1 + timer_delay (5000 - now ?w1 + now w)\<rparr>) - ts
               \<le> int T * 1000 + 5000"
      using False timer_delay_le [of "latency (obs i)"] by simp
    have d: "(\<forall>j<Suc i. latency (obs j) < 5000) \<longrightarrow>
               now (?w1\<lparr>now := now ?w1 + timer_delay (5000 - now ?w1 + now w)\<rparr>)
                 = ts + 5000 * int (Suc i)"
    proof
      assume f: "\<forall>j<Suc i. latency (obs j) < 5000"
      then have "now w = ts + 5000 * int i" using "1.prems"(5) by simp
      moreover have "latency (obs i) < 5000" using f by simp
      ultimately show "now (?w1\<lparr>now := now ?w1 + timer_delay (5000 - now ?w1 + now w)\<rparr>)
                 = ts + 5000 * int (Suc i)"
        by (simp add: timer_delay_def)
    qed
    have "\<exists>n w'. poll_loop obs check T child ts (Suc i)
             (deliver (closes_in_wait (obs i)) (deliver (closes_in_probe (obs i)) v))
             (?w1\<lparr>now := now ?w1 + timer_delay (5000 - now ?w1 + now w)\<rparr>) = (Resolved None, Suc n, w') \<and>
           int T * 1000 < now w' - ts \<and>
           now w' - ts \<le> int T * 1000 + 5000 + int (latency (obs n)) \<and>
           ((\<forall>j<n. latency (obs j) < 5000) \<longrightarrow>
              now w' - ts = 5000 * int n + int (latency (obs n)))"
      by (rule "1.IH" [OF refl refl refl chk ne a "1.prems"(1) "1.prems"(2) b c d])
    then have "\<exists>n w'. poll_loop obs check T child ts (Suc i) v ?w2 = (Resolved None, Suc n, w') \<and>
           int T * 1000 < now w' - ts \<and>
           now w' - ts \<le> int T * 1000 + 5000 + int (latency (obs n)) \<and>
           ((\<forall>j<n. latency (obs j) < 5000) \<longrightarrow>
              now w' - ts = 5000 * int n + int (latency (obs n)))"
      by (simp add: quiet)
    then show ?thesis using step by simp
  qed
qed

lemma poll_third_probe:
  assumes "check 0 = Resolved (Some False)" and "check 1 = Resolved (Some False)"
    and "check 2 = Resolved (Some True)"
    and "\<not> closed v"
    and "\<not> closes_in_probe (obs 0)" and "\<not> closes_in_wait (obs 0)" and "\<not> closes_in_probe (obs 1)"
    and "int (latency (obs 0)) \<le> int T * 1000"
    and "int (latency (obs 0)) + timer_delay (5000 - int (latency (obs 0))) + int (latency (obs 1))
           \<le> int T * 1000"
  shows "\<exists>w'. poll_loop obs check T child (now w) 0 v w = (Resolved (Some child), 3, w') \<and>
           subprocesses w' = subprocesses w @ [Some child] \<and>
           \<not> stdout_piped (objs w' child) \<and> \<not> stderr_piped (objs w' child)"
proof -
  let ?w1 = "w\<lparr>now := now w + int (latency (obs 0)) + timer_delay (5000 - int (latency (obs 0)))\<rparr>"
  let ?w2 = "?w1\<lparr>now := now ?w1 + int (latency (obs 1)) + timer_delay (5000 - int (latency (obs 1)))\<rparr>"
  let ?v2 = "deliver (closes_in_wait (obs 1)) v"
  have s0: "poll_loop obs check T child (now w) 0 v w = poll_loop obs check T child (now w) (Suc 0) v ?w1"
    using assms
      poll_step_continue [where check=check and i=0 and h="Some False" and obs=obs and v=v and w=w
        and ts="now w" and T=T and child=child]
    by (simp add: deliver_False)
  have s1: "poll_loop obs check T child (now w) (Suc 0) v ?w1
              = poll_loop obs check T child (now w) (Suc (Suc 0)) ?v2 ?w2"
    using assms
      poll_step_continue [where check=check and i="Suc 0" and h="Some False" and obs=obs and v=v
        and w="?w1" and ts="now w" and T=T and child=child]
    by (simp add: deliver_False)
  have s2: "poll_loop obs check T child (now w) (Suc (Suc 0)) ?v2 ?w2
              = (Resolved (Some child), Suc (Suc (Suc 0)),
                 recordProcess child (unpipe child (?w2\<lparr>now := now ?w2 + int (latency (obs (Suc (Suc 0))))\<rparr>)))"
    using assms(3)
      poll_step_success [where check=check and i="Suc (Suc 0)" and obs=obs and v="?v2" and w="?w2"
        and ts="now w" and T=T and child=child]
    by (simp add: numeral_2_eq_2)
  show ?thesis
    using s0 s1 s2 by (simp add: recordProcess_def unpipe_def numeral_3_eq_3)
qed

lemma spawn_facts:
  "spawn pid' cmd args dir w = (c, w1) \<Longrightarrow>
     c = next_ref w \<and> now w1 = now w \<and> subprocesses w1 = subprocesses w \<and>
     kill_calls (objs w1 c) = []"
  by (auto simp: spawn_def)

lemma check_os_red: "checkOpenSearchHealth (net_of 200 False) opts_plain = Resolved (Some False)"
  by (simp add: checkOpenSearchHealth_def net_of_def json_reply_def opts_plain_def
      opensearchRequest_def json_content_def parse_stub_def status_healthy_def)

lemma check_os_green: "checkOpenSearchHealth (net_of 200 True) opts_plain = Resolved (Some True)"
  by (simp add: checkOpenSearchHealth_def net_of_def json_reply_def opts_plain_def
      opensearchRequest_def json_content_def parse_stub_def status_healthy_def)

lemma check_osd_red: "checkDashboardsHealth (net_of 200 False) opts_plain = Resolved (Some False)"
  by (simp add: checkDashboardsHealth_def net_of_def json_reply_def opts_plain_def
      dashboardsRequest_def json_content_def parse_stub_def overall_state_def)

lemma check_osd_green: "checkDashboardsHealth (net_of 200 True) opts_plain = Resolved (Some True)"
  by (simp add: checkDashboardsHealth_def net_of_def json_reply_def opts_plain_def
      dashboardsRequest_def json_content_def parse_stub_def overall_state_def)

lemma spawn_result:
  "fst (spawn p c a d w) = next_ref w"
  "now (snd (spawn p c a d w)) = now w"
  "subprocesses (snd (spawn p c a d w)) = subprocesses w"
  "kill_calls (objs (snd (spawn p c a d w)) (next_ref w)) = []"
  by (simp_all add: spawn_def)

lemma runOpenSearch_as_poll:
  "runOpenSearch env folder T opts w =
     poll_loop (observe env) (\<lambda>i. checkOpenSearchHealth (network env i) opts) T (next_ref w)
       (now w) 0 \<lparr>closed = False, running = False\<rparr>
       (snd (spawn (spawn_pid env)
          (path_join (path_join folder ''bin'') (if win32 env then ''opensearch.bat'' else ''opensearch''))
          [] folder w))"
  by (simp add: runOpenSearch_def split_beta spawn_result)

lemma runDashboards_as_poll:
  "runDashboards env folder T opts w =
     poll_loop (observe env) (\<lambda>i. checkDashboardsHealth (network env i) opts) T (next_ref w)
       (now w) 0 \<lparr>closed = False, running = False\<rparr>
       (snd (spawn (spawn_pid env)
          (fst (if isVersion_js (dashboardsVersion opts) \<or> build opts
             then (path_join (path_join folder ''bin'')
                     (if win32 env then ''opensearch-dashboards.bat'' else ''opensearch-dashboards''), [])
             else (''yarn'', [''start'', ''--no-base-path''])))
          (snd (if isVersion_js (dashboardsVersion opts) \<or> build opts
             then (path_join (path_join folder ''bin'')
                     (if win32 env then ''opensearch-dashboards.bat'' else ''opensearch-dashboards''), [])
             else (''yarn'', [''start'', ''--no-base-path''])))
          folder w))"
  unfolding runDashboards_def Let_def split_beta
  by (simp only: spawn_result)

lemma run_closed_value:
  "runOpenSearch env_closed ''/srv/OpenSearch-v2.13.0'' 180 opts_plain world_two =
     (Resolved None, 1,
      world_two\<lparr>now := 20, next_ref := 3,
        objs := (objs world_two)(2 := \<lparr>pid = 42, spawnfile = ''/srv/OpenSearch-v2.13.0/bin/opensearch'',
          spawnargs = [], cwd = ''/srv/OpenSearch-v2.13.0'', detached = True, stdout_piped = True,
          stderr_piped = True, kill_calls = [SIGTERM], refd = False\<rparr>)\<rparr>)"
  by (simp add: runOpenSearch_def spawn_def env_closed_def obs_of_def poll_loop.simps check_os_red
      deliver_def on_close_def unref_def child_kill_def world_two_def path_join_def)

lemma rund_closed_value:
  "fst (runDashboards env_closed ''/srv/Dashboards-v2.13.0'' 600 opts_plain world_two) = Resolved None"
  by (simp add: runDashboards_def spawn_def env_closed_def obs_of_def poll_loop.simps check_osd_red
      deliver_def on_close_def unref_def child_kill_def world_two_def path_join_def)

text \<open>
  C1. At any iteration of the loop, whatever the state, a health check that returns true
  ends the loop at once: the function resolves to the child, both output streams are
  unpiped, and the child is appended to the registry. In \<^verbatim>\<open>runOpenSearch\<close> and in
  \<^verbatim>\<open>runDashboards\<close>, when the health check returns false twice and then true, the child
  stays open and the first two probes end within the budget, the function resolves to the
  freshly spawned child after exactly three probes, and that child is in the registry
  exactly once.
\<close>

theorem poll_success_registers_once:
  "(check i = Resolved (Some True) \<longrightarrow>
      (\<exists>w'. poll_loop obs check T child ts i v w = (Resolved (Some child), Suc i, w') \<and>
            \<not> stdout_piped (objs w' child) \<and> \<not> stderr_piped (objs w' child) \<and>
            subprocesses w' = subprocesses w @ [Some child])) \<and>
   (checkOpenSearchHealth (network env 0) opts = Resolved (Some False) \<and>
    checkOpenSearchHealth (network env 1) opts = Resolved (Some False) \<and>
    checkOpenSearchHealth (network env 2) opts = Resolved (Some True) \<and>
    \<not> closes_in_probe (observe env 0) \<and> \<not> closes_in_wait (observe env 0) \<and>
    \<not> closes_in_probe (observe env 1) \<and>
    int (latency (observe env 0)) \<le> int T * 1000 \<and>
    int (latency (observe env 0)) + timer_delay (5000 - int (latency (observe env 0)))
      + int (latency (observe env 1)) \<le> int T * 1000 \<and>
    Some (next_ref w) \<notin> set (subprocesses w) \<longrightarrow>
      (\<exists>w'. runOpenSearch env folder T opts w = (Resolved (Some (next_ref w)), 3, w') \<and>
            \<not> stdout_piped (objs w' (next_ref w)) \<and> \<not> stderr_piped (objs w' (next_ref w)) \<and>
            count_list (subprocesses w') (Some (next_ref w)) = 1)) \<and>
   (checkDashboardsHealth (network env 0) opts = Resolved (Some False) \<and>
    checkDashboardsHealth (network env 1) opts = Resolved (Some False) \<and>
    checkDashboardsHealth (network env 2) opts = Resolved (Some True) \<and>
    \<not> closes_in_probe (observe env 0) \<and> \<not> closes_in_wait (observe env 0) \<and>
    \<not> closes_in_probe (observe env 1) \<and>
    int (latency (observe env 0)) \<le> int T * 1000 \<and>
    int (latency (observe env 0)) + timer_delay (5000 - int (latency (observe env 0)))
      + int (latency (observe env 1)) \<le> int T * 1000 \<and>
    Some (next_ref w) \<notin> set (subprocesses w) \<longrightarrow>
      (\<exists>w'. runDashboards env folder T opts w = (Resolved (Some (next_ref w)), 3, w') \<and>
            \<not> stdout_piped (objs w' (next_ref w)) \<and> \<not> stderr_piped (objs w' (next_ref w)) \<and>
            count_list (subprocesses w') (Some (next_ref w)) = 1))"
proof (intro conjI impI)
  assume "check i = Resolved (Some True)"
  then show "\<exists>w'. poll_loop obs check T child ts i v w = (Resolved (Some child), Suc i, w') \<and>
            \<not> stdout_piped (objs w' child) \<and> \<not> stderr_piped (objs w' child) \<and>
            subprocesses w' = subprocesses w @ [Some child]"
    using poll_step_success [where check=check and i=i and obs=obs and v=v and w=w and ts=ts
        and T=T and child=child]
    by (simp add: recordProcess_def unpipe_def)
next
  assume h: "checkOpenSearchHealth (network env 0) opts = Resolved (Some False) \<and>
    checkOpenSearchHealth (network env 1) opts = Resolved (Some False) \<and>
    checkOpenSearchHealth (network env 2) opts = Resolved (Some True) \<and>
    \<not> closes_in_probe (observe env 0) \<and> \<not> closes_in_wait (observe env 0) \<and>
    \<not> closes_in_probe (observe env 1) \<and>
    int (latency (observe env 0)) \<le> int T * 1000 \<and>
    int (latency (observe env 0)) + timer_delay (5000 - int (latency (observe env 0)))
      + int (latency (observe env 1)) \<le> int T * 1000 \<and>
    Some (next_ref w) \<notin> set (subprocesses w)"
  obtain c w1 where sp: "spawn (spawn_pid env)
      (path_join (path_join folder ''bin'') (if win32 env then ''opensearch.bat'' else ''opensearch''))
      [] folder w = (c, w1)"
    by (cases "spawn (spawn_pid env)
      (path_join (path_join folder ''bin'') (if win32 env then ''opensearch.bat'' else ''opensearch''))
      [] folder w") auto
  note f = spawn_facts [OF sp]
  have run: "runOpenSearch env folder T opts w =
      poll_loop (observe env) (\<lambda>i. checkOpenSearchHealth (network env i) opts) T c (now w1) 0
        \<lparr>closed = False, running = False\<rparr> w1"
    using sp by (simp add: runOpenSearch_def)
  obtain w' where r: "poll_loop (observe env) (\<lambda>i. checkOpenSearchHealth (network env i) opts) T c
        (now w1) 0 \<lparr>closed = False, running = False\<rparr> w1 = (Resolved (Some c), 3, w')"
      "subprocesses w' = subprocesses w1 @ [Some c]"
      "\<not> stdout_piped (objs w' c)" "\<not> stderr_piped (objs w' c)"
    using h poll_third_probe [where check="\<lambda>i. checkOpenSearchHealth (network env i) opts"
        and obs="observe env" and v="\<lparr>closed = False, running = False\<rparr>" and T=T and child=c and w=w1]
    by auto
  show "\<exists>w'. runOpenSearch env folder T opts w = (Resolved (Some (next_ref w)), 3, w') \<and>
            \<not> stdout_piped (objs w' (next_ref w)) \<and> \<not> stderr_piped (objs w' (next_ref w)) \<and>
            count_list (subprocesses w') (Some (next_ref w)) = 1"
    using run r f h by (auto simp: count_list_0_iff)
next
  assume h: "checkDashboardsHealth (network env 0) opts = Resolved (Some False) \<and>
    checkDashboardsHealth (network env 1) opts = Resolved (Some False) \<and>
    checkDashboardsHealth (network env 2) opts = Resolved (Some True) \<and>
    \<not> closes_in_probe (observe env 0) \<and> \<not> closes_in_wait (observe env 0) \<and>
    \<not> closes_in_probe (observe env 1) \<and>
    int (latency (observe env 0)) \<le> int T * 1000 \<and>
    int (latency (observe env 0)) + timer_delay (5000 - int (latency (observe env 0)))
      + int (latency (observe env 1)) \<le> int T * 1000 \<and>
    Some (next_ref w) \<notin> set (subprocesses w)"
  define cmd where "cmd = (if isVersion_js (dashboardsVersion opts) \<or> build opts
             then (path_join (path_join folder ''bin'')
                     (if win32 env then ''opensearch-dashboards.bat'' else ''opensearch-dashboards''), [])
             else (''yarn'', [''start'', ''--no-base-path'']))"
  obtain c w1 where sp: "spawn (spawn_pid env) (fst cmd) (snd cmd) folder w = (c, w1)"
    by (cases "spawn (spawn_pid env) (fst cmd) (snd cmd) folder w") auto
  note f = spawn_facts [OF sp]
  have run: "runDashboards env folder T opts w =
      poll_loop (observe env) (\<lambda>i. checkDashboardsHealth (network env i) opts) T c (now w1) 0
        \<lparr>closed = False, running = False\<rparr> w1"
    using sp unfolding runDashboards_def Let_def cmd_def [symmetric]
    by (simp add: split_beta)
  obtain w' where r: "poll_loop (observe env) (\<lambda>i. checkDashboardsHealth (network env i) opts) T c
        (now w1) 0 \<lparr>closed = False, running = False\<rparr> w1 = (Resolved (Some c), 3, w')"
      "subprocesses w' = subprocesses w1 @ [Some c]"
      "\<not> stdout_piped (objs w' c)" "\<not> stderr_piped (objs w' c)"
    using h poll_third_probe [where check="\<lambda>i. checkDashboardsHealth (network env i) opts"
        and obs="observe env" and v="\<lparr>closed = False, running = False\<rparr>" and T=T and child=c and w=w1]
    by auto
  show "\<exists>w'. runDashboards env folder T opts w = (Resolved (Some (next_ref w)), 3, w') \<and>
            \<not> stdout_piped (objs w' (next_ref w)) \<and> \<not> stderr_piped (objs w' (next_ref w)) \<and>
            count_list (subprocesses w') (Some (next_ref w)) = 1"
    using run r f h by (auto simp: count_list_0_iff)
qed

theorem poll_success_registers_once_witness:
  "checkOpenSearchHealth (network env_third 1) opts_plain = Resolved (Some False) \<and>
   checkOpenSearchHealth (network env_third 2) opts_plain = Resolved (Some True) \<and>
   checkDashboardsHealth (network env_third 2) opts_plain = Resolved (Some True) \<and>
   (\<exists>w'. poll_loop (observe env_third) (\<lambda>i. checkOpenSearchHealth (network env_third i) opts_plain)
            180 5 0 2 vars_start world_two = (Resolved (Some 5), 3, w') \<and>
         subprocesses w' = [Some 0, Some 1, Some 5]) \<and>
   (\<exists>w'. runOpenSearch env_third ''/srv/OpenSearch-v2.13.0'' 180 opts_plain world_two
            = (Resolved (Some 2), 3, w') \<and>
         count_list (subprocesses w') (Some 2) = 1) \<and>
   (\<exists>w'. runDashboards env_third ''/srv/Dashboards-v2.13.0'' 600 opts_plain world_empty
            = (Resolved (Some 0), 3, w') \<and>
         count_list (subprocesses w') (Some 0) = 1)"
  using poll_success_registers_once [where check="\<lambda>i. checkOpenSearchHealth (network env_third i) opts_plain"
      and i=2 and obs="observe env_third" and T=180 and child=5 and ts=0 and v=vars_start
      and w=world_two and env=env_third and opts=opts_plain and folder="''/srv/OpenSearch-v2.13.0''"]
    poll_success_registers_once [where check="\<lambda>i. checkOpenSearchHealth (network env_third i) opts_plain"
      and i=2 and obs="observe env_third" and T=600 and child=5 and ts=0 and v=vars_start
      and w=world_empty and env=env_third and opts=opts_plain and folder="''/srv/Dashboards-v2.13.0''"]
  by (auto simp: env_third_def obs_of_def check_os_red check_os_green check_osd_red check_osd_green
      timer_delay_def world_two_def world_empty_def)

text \<open>
  C2, as the code has it. The claim bounds the time of the timeout failure by N + 5
  seconds. The elapsed time is tested after the probe, so the last probe's latency comes
  on top: with a budget of 5 seconds and probes that are immediate but the third, which
  takes one millisecond, \<^verbatim>\<open>runOpenSearch\<close> gives up 10001 ms after the loop started.
\<close>

theorem timeout_after_window:
  "fst (runOpenSearch env_late ''/srv/OpenSearch-v2.13.0'' 5 opts_plain world_empty) = Resolved None \<and>
   now (snd (snd (runOpenSearch env_late ''/srv/OpenSearch-v2.13.0'' 5 opts_plain world_empty)))
     - now world_empty = 10001"
  by (simp add: runOpenSearch_def spawn_def world_empty_def env_late_def obs_of_def poll_loop.simps
      check_os_red deliver_def timer_delay_def unref_def child_kill_def path_join_def)

text \<open>
  C2, amended. With a health check that always returns false and a child that never
  closes, the loop returns undefined at the end of some probe \<open>n\<close>, later than N seconds
  and no later than N + 5 seconds plus the latency of that last probe after the loop
  started. After a probe that ends within the budget, the loop waits 5000 ms less the
  latency of that probe, and at least 1 ms, and then probes again: as long as the probes
  take less than five seconds each, probe \<open>n\<close> starts \<open>5000 * n\<close> ms after the loop did.
\<close>

theorem poll_timeout_window:
  assumes "\<forall>j. check j = Resolved (Some False)"
    and "\<forall>j. \<not> closes_in_probe (obs j) \<and> \<not> closes_in_wait (obs j)"
    and "\<not> closed v"
  shows "(\<exists>n w'. poll_loop obs check T child (now w) 0 v w = (Resolved None, Suc n, w') \<and>
           int T * 1000 < now w' - now w \<and>
           now w' - now w \<le> int T * 1000 + 5000 + int (latency (obs n)) \<and>
           ((\<forall>j<n. latency (obs j) < 5000) \<longrightarrow>
              now w' - now w = 5000 * int n + int (latency (obs n)))) \<and>
         (\<forall>i u ts. now u + int (latency (obs i)) - ts \<le> int T * 1000 \<longrightarrow>
            poll_loop obs check T child ts i v u =
              poll_loop obs check T child ts (Suc i) v
                (u\<lparr>now := now u + int (latency (obs i)) + max 1 (5000 - int (latency (obs i)))\<rparr>))"
proof -
  have window: "\<exists>n w'. poll_loop obs check T child (now w) 0 v w = (Resolved None, Suc n, w') \<and>
           int T * 1000 < now w' - now w \<and>
           now w' - now w \<le> int T * 1000 + 5000 + int (latency (obs n)) \<and>
           ((\<forall>j<n. latency (obs j) < 5000) \<longrightarrow>
              now w' - now w = 5000 * int n + int (latency (obs n)))"
    using poll_timeout_aux [OF assms, of w "now w" T 0 child] by simp
  have step: "poll_loop obs check T child ts i v u =
              poll_loop obs check T child ts (Suc i) v
                (u\<lparr>now := now u + int (latency (obs i)) + max 1 (5000 - int (latency (obs i)))\<rparr>)"
    if "now u + int (latency (obs i)) - ts \<le> int T * 1000" for i u ts
  proof -
    have chk: "check i = Resolved (Some False)" using assms(1) by simp
    have quiet: "deliver (closes_in_probe (obs i)) v = v" "deliver (closes_in_wait (obs i)) v = v"
      using assms(2) by (simp_all add: deliver_False)
    have td: "timer_delay (5000 - int (latency (obs i))) = max 1 (5000 - int (latency (obs i)))"
      by (simp add: timer_delay_def max_def)
    show ?thesis
      using chk quiet assms(3) that td
        poll_step_continue [where check=check and i=i and h="Some False" and obs=obs and v=v and w=u
          and ts=ts and T=T and child=child]
      by simp
  qed
  show ?thesis using window step by blast
qed

theorem poll_timeout_window_witness:
  "(\<forall>j. \<not> closes_in_probe (observe env_red j) \<and> \<not> closes_in_wait (observe env_red j)) \<and>
   (\<forall>j. latency (observe env_red j) < 5000) \<and>
   (\<exists>n w'. poll_loop (observe env_red) (\<lambda>i. checkOpenSearchHealth (network env_red i) opts_plain)
              180 2 (now world_two) 0 vars_start world_two = (Resolved None, Suc n, w') \<and>
           180000 < now w' - now world_two \<and> now w' - now world_two \<le> 185020 \<and>
           now w' - now world_two = 5000 * int n + 20) \<and>
   poll_loop (observe env_red) (\<lambda>i. checkOpenSearchHealth (network env_red i) opts_plain)
       180 2 0 0 vars_start world_two
     = poll_loop (observe env_red) (\<lambda>i. checkOpenSearchHealth (network env_red i) opts_plain)
         180 2 0 (Suc 0) vars_start (world_two\<lparr>now := 5000\<rparr>)"
proof -
  note t = poll_timeout_window [where check="\<lambda>i. checkOpenSearchHealth (network env_red i) opts_plain"
      and obs="observe env_red" and v=vars_start and T=180 and child=2 and w=world_two]
  have h: "\<forall>j. (\<lambda>i. checkOpenSearchHealth (network env_red i) opts_plain) j = Resolved (Some False)"
      "\<forall>j. \<not> closes_in_probe (observe env_red j) \<and> \<not> closes_in_wait (observe env_red j)"
      "\<not> closed vars_start"
    by (simp_all add: env_red_def obs_of_def check_os_red vars_start_def)
  have a: "\<exists>n w'. poll_loop (observe env_red) (\<lambda>i. checkOpenSearchHealth (network env_red i) opts_plain)
              180 2 (now world_two) 0 vars_start world_two = (Resolved None, Suc n, w') \<and>
           180000 < now w' - now world_two \<and> now w' - now world_two \<le> 185020 \<and>
           now w' - now world_two = 5000 * int n + 20"
    using conjunct1 [OF t [OF h]] by (simp add: env_red_def obs_of_def)
  have b: "poll_loop (observe env_red) (\<lambda>i. checkOpenSearchHealth (network env_red i) opts_plain)
       180 2 0 0 vars_start world_two
     = poll_loop (observe env_red) (\<lambda>i. checkOpenSearchHealth (network env_red i) opts_plain)
         180 2 0 (Suc 0) vars_start (world_two\<lparr>now := 5000\<rparr>)"
    using conjunct2 [OF t [OF h], rule_format, of world_two 0 0]
    by (simp add: env_red_def obs_of_def world_two_def)
  show ?thesis using a b h(2) by (simp add: env_red_def obs_of_def)
qed

text \<open>
  C3, as the code has it. The claim has the loop exit at once, with no further waiting,
  when the child closes before health is reached, and has every such close end in
  failure. The loop looks at the \<^verbatim>\<open>closed\<close> flag only after a probe. A child that closes
  while the loop waits on the timer is noticed after that wait and one more probe: with
  a first probe of 20 ms and a second one of three seconds, \<^verbatim>\<open>runOpenSearch\<close> returns
  undefined 8000 ms after the loop started, 7980 ms after the close. And a probe that
  reports health ends the loop in success whatever the flag says: a child that closed
  during a probe which finds the service green is returned and registered.
\<close>

theorem close_during_wait_outlasts:
  "closes_in_wait (observe env_wait_close 0) \<and>
   fst (runOpenSearch env_wait_close ''/srv/OpenSearch-v2.13.0'' 180 opts_plain world_empty)
     = Resolved None \<and>
   fst (snd (runOpenSearch env_wait_close ''/srv/OpenSearch-v2.13.0'' 180 opts_plain world_empty)) = 2 \<and>
   now (snd (snd (runOpenSearch env_wait_close ''/srv/OpenSearch-v2.13.0'' 180 opts_plain world_empty)))
     - now world_empty = 8000 \<and>
   closes_in_probe (observe env_closed_green 0) \<and>
   fst (runOpenSearch env_closed_green ''/srv/OpenSearch-v2.13.0'' 180 opts_plain world_empty)
     = Resolved (Some 0) \<and>
   subprocesses (snd (snd (runOpenSearch env_closed_green ''/srv/OpenSearch-v2.13.0'' 180 opts_plain
       world_empty))) = [Some 0]"
  by (simp add: runOpenSearch_def spawn_def world_empty_def env_wait_close_def
      env_closed_green_def obs_of_def poll_loop.simps check_os_red check_os_green deliver_def
      on_close_def timer_delay_def unref_def child_kill_def recordProcess_def unpipe_def
      path_join_def)

text \<open>
  C3, amended. Whenever the loop returns undefined, be it for the close event or for the
  timeout, the child has been sent SIGTERM through \<^verbatim>\<open>child.kill\<close> and unref'd, and the
  registry is as it was; for \<^verbatim>\<open>runOpenSearch\<close> and \<^verbatim>\<open>runDashboards\<close> the child is the one
  just spawned. The close event is acted upon after a probe only. Once it has been
  delivered, before the probe or while it was awaited, the check after a probe that does
  not report health returns undefined in that iteration, at the time the probe ended: no
  wait on the timer is started, whatever the timeout budget is. A close event delivered
  during the wait on the timer lets that wait finish and one further probe run; the loop
  returns undefined at the end of that probe, unless it reports health. A probe that
  reports health ends the loop in success, the child unpiped, registered and returned,
  whether or not the close event was delivered.
\<close>

theorem poll_failure_terminates_child:
  "(poll_loop obs check T child ts i v w = (Resolved None, n, w') \<longrightarrow>
      kill_calls (objs w' child) = kill_calls (objs w child) @ [SIGTERM] \<and>
      \<not> refd (objs w' child) \<and> subprocesses w' = subprocesses w) \<and>
   (runOpenSearch env folder T opts w = (Resolved None, n, w') \<longrightarrow>
      kill_calls (objs w' (next_ref w)) = [SIGTERM] \<and>
      \<not> refd (objs w' (next_ref w)) \<and> subprocesses w' = subprocesses w) \<and>
   (runDashboards env folder T opts w = (Resolved None, n, w') \<longrightarrow>
      kill_calls (objs w' (next_ref w)) = [SIGTERM] \<and>
      \<not> refd (objs w' (next_ref w)) \<and> subprocesses w' = subprocesses w) \<and>
   (check i = Resolved h \<and> h \<noteq> Some True \<and>
    (closed v \<or> closes_in_probe (obs i) \<and> \<not> running v) \<longrightarrow>
      poll_loop obs check T child ts i v w =
        (Resolved None, Suc i,
         unref child (child_kill child SIGTERM (w\<lparr>now := now w + int (latency (obs i))\<rparr>)))) \<and>
   (check i = Resolved h \<and> h \<noteq> Some True \<and> \<not> closed v \<and> \<not> running v \<and>
    \<not> closes_in_probe (obs i) \<and> now w + int (latency (obs i)) - ts \<le> int T * 1000 \<and>
    closes_in_wait (obs i) \<and> check (Suc i) = Resolved h' \<and> h' \<noteq> Some True \<longrightarrow>
      poll_loop obs check T child ts i v w =
        (Resolved None, Suc (Suc i),
         unref child (child_kill child SIGTERM
           (w\<lparr>now := now w + int (latency (obs i)) + timer_delay (5000 - int (latency (obs i)))
                      + int (latency (obs (Suc i)))\<rparr>)))) \<and>
   (check i = Resolved (Some True) \<longrightarrow>
      poll_loop obs check T child ts i v w =
        (Resolved (Some child), Suc i,
         recordProcess child (unpipe child (w\<lparr>now := now w + int (latency (obs i))\<rparr>))))"
proof -
  have a: "kill_calls (objs w' child) = kill_calls (objs w child) @ [SIGTERM] \<and>
      \<not> refd (objs w' child) \<and> subprocesses w' = subprocesses w"
    if "poll_loop obs check T child ts i v w = (Resolved None, n, w')"
    using that by (rule poll_failure_effects)
  have b: "kill_calls (objs w' (next_ref w)) = [SIGTERM] \<and>
      \<not> refd (objs w' (next_ref w)) \<and> subprocesses w' = subprocesses w"
    if r: "runOpenSearch env folder T opts w = (Resolved None, n, w')"
  proof -
    let ?w1 = "snd (spawn (spawn_pid env)
          (path_join (path_join folder ''bin'') (if win32 env then ''opensearch.bat'' else ''opensearch''))
          [] folder w)"
    have p: "poll_loop (observe env) (\<lambda>i. checkOpenSearchHealth (network env i) opts) T (next_ref w)
            (now w) 0 \<lparr>closed = False, running = False\<rparr> ?w1 = (Resolved None, n, w')"
      using r runOpenSearch_as_poll [of env folder T opts w] by simp
    show ?thesis
      using poll_failure_effects [OF p] by (simp add: spawn_result)
  qed
  have c: "kill_calls (objs w' (next_ref w)) = [SIGTERM] \<and>
      \<not> refd (objs w' (next_ref w)) \<and> subprocesses w' = subprocesses w"
    if r: "runDashboards env folder T opts w = (Resolved None, n, w')"
  proof -
    let ?w1 = "snd (spawn (spawn_pid env)
          (fst (if isVersion_js (dashboardsVersion opts) \<or> build opts
             then (path_join (path_join folder ''bin'')
                     (if win32 env then ''opensearch-dashboards.bat'' else ''opensearch-dashboards''), [])
             else (''yarn'', [''start'', ''--no-base-path''])))
          (snd (if isVersion_js (dashboardsVersion opts) \<or> build opts
             then (path_join (path_join folder ''bin'')
                     (if win32 env then ''opensearch-dashboards.bat'' else ''opensearch-dashboards''), [])
             else (''yarn'', [''start'', ''--no-base-path''])))
          folder w)"
    have p: "poll_loop (observe env) (\<lambda>i. checkDashboardsHealth (network env i) opts) T (next_ref w)
            (now w) 0 \<lparr>closed = False, running = False\<rparr> ?w1 = (Resolved None, n, w')"
      using r runDashboards_as_poll [of env folder T opts w] by simp
    show ?thesis
      using poll_failure_effects [OF p] by (simp add: spawn_result)
  qed
  have d: "poll_loop obs check T child ts i v w =
        (Resolved None, Suc i,
         unref child (child_kill child SIGTERM (w\<lparr>now := now w + int (latency (obs i))\<rparr>)))"
    if "check i = Resolved h \<and> h \<noteq> Some True \<and>
        (closed v \<or> closes_in_probe (obs i) \<and> \<not> running v)"
  proof -
    have "closed (deliver (closes_in_probe (obs i)) v)"
      using that by (auto simp: deliver_def on_close_def)
    then show ?thesis
      using that poll_step_fail [where check=check and i=i and h=h and obs=obs and v=v and w=w
          and ts=ts and T=T and child=child]
      by simp
  qed
  have e: "poll_loop obs check T child ts i v w =
        (Resolved None, Suc (Suc i),
         unref child (child_kill child SIGTERM
           (w\<lparr>now := now w + int (latency (obs i)) + timer_delay (5000 - int (latency (obs i)))
                      + int (latency (obs (Suc i)))\<rparr>)))"
    if h: "check i = Resolved h \<and> h \<noteq> Some True \<and> \<not> closed v \<and> \<not> running v \<and>
      \<not> closes_in_probe (obs i) \<and> now w + int (latency (obs i)) - ts \<le> int T * 1000 \<and>
      closes_in_wait (obs i) \<and> check (Suc i) = Resolved h' \<and> h' \<noteq> Some True"
  proof -
    let ?v1 = "deliver (closes_in_wait (obs i)) (deliver (closes_in_probe (obs i)) v)"
    let ?w1 = "w\<lparr>now := now w + int (latency (obs i)) + timer_delay (5000 - int (latency (obs i)))\<rparr>"
    have s1: "poll_loop obs check T child ts i v w = poll_loop obs check T child ts (Suc i) ?v1 ?w1"
      using h poll_step_continue [where check=check and i=i and h=h and obs=obs and v=v and w=w
          and ts=ts and T=T and child=child]
      by (simp add: deliver_def)
    have cl: "closed (deliver (closes_in_probe (obs (Suc i))) ?v1)"
      using h by (simp add: deliver_def on_close_def)
    have s2: "poll_loop obs check T child ts (Suc i) ?v1 ?w1 =
        (Resolved None, Suc (Suc i),
         unref child (child_kill child SIGTERM (?w1\<lparr>now := now ?w1 + int (latency (obs (Suc i)))\<rparr>)))"
      using h cl poll_step_fail [where check=check and i="Suc i" and h=h' and obs=obs and v="?v1"
          and w="?w1" and ts=ts and T=T and child=child]
      by simp
    show ?thesis using s1 s2 by simp
  qed
  have f: "poll_loop obs check T child ts i v w =
        (Resolved (Some child), Suc i,
         recordProcess child (unpipe child (w\<lparr>now := now w + int (latency (obs i))\<rparr>)))"
    if "check i = Resolved (Some True)"
    using that by (rule poll_step_success)
  show ?thesis using a b c d e f by blast
qed


theorem poll_failure_terminates_child_witness:
  "closed (deliver (closes_in_probe (observe env_closed 0)) vars_start) \<and>
   (\<exists>w'. runOpenSearch env_closed ''/srv/OpenSearch-v2.13.0'' 180 opts_plain world_two
            = (Resolved None, 1, w') \<and>
         now w' = 20 \<and> kill_calls (objs w' 2) = [SIGTERM] \<and> \<not> refd (objs w' 2) \<and>
         subprocesses w' = [Some 0, Some 1]) \<and>
   (\<exists>n w'. runDashboards env_closed ''/srv/Dashboards-v2.13.0'' 600 opts_plain world_two
            = (Resolved None, n, w') \<and>
         kill_calls (objs w' 2) = [SIGTERM] \<and> \<not> refd (objs w' 2) \<and>
         subprocesses w' = [Some 0, Some 1]) \<and>
   closes_in_wait (observe env_wait_close 0) \<and>
   (\<exists>w'. poll_loop (observe env_wait_close)
            (\<lambda>i. checkOpenSearchHealth (network env_wait_close i) opts_plain) 180 0 0 0 vars_start
            world_empty = (Resolved None, 2, w') \<and> now w' = 8000) \<and>
   (\<exists>w'. poll_loop (observe env_closed_green)
            (\<lambda>i. checkOpenSearchHealth (network env_closed_green i) opts_plain) 180 0 0 0
            (vars_start\<lparr>closed := True\<rparr>) world_empty = (Resolved (Some 0), 1, w') \<and>
          subprocesses w' = [Some 0])"
proof -
  let ?r = "runOpenSearch env_closed ''/srv/OpenSearch-v2.13.0'' 180 opts_plain world_two"
  let ?d = "runDashboards env_closed ''/srv/Dashboards-v2.13.0'' 600 opts_plain world_two"
  have a: "closed (deliver (closes_in_probe (observe env_closed 0)) vars_start)"
    by (simp add: env_closed_def obs_of_def deliver_def on_close_def vars_start_def)
  have r: "?r = (Resolved None, 1, snd (snd ?r))" "now (snd (snd ?r)) = 20"
    by (simp_all add: run_closed_value)
  obtain n w' where d: "?d = (Resolved None, n, w')"
    using rund_closed_value by (cases ?d) auto
  have b: "kill_calls (objs (snd (snd ?r)) 2) = [SIGTERM] \<and> \<not> refd (objs (snd (snd ?r)) 2) \<and>
      subprocesses (snd (snd ?r)) = [Some 0, Some 1]"
    using r(1) poll_failure_terminates_child [where env=env_closed and folder="''/srv/OpenSearch-v2.13.0''"
        and T=180 and opts=opts_plain and w=world_two and n=1 and w'="snd (snd ?r)"]
    by (simp add: world_two_def)
  have c: "kill_calls (objs w' 2) = [SIGTERM] \<and> \<not> refd (objs w' 2) \<and>
      subprocesses w' = [Some 0, Some 1]"
    using d poll_failure_terminates_child [where env=env_closed and folder="''/srv/Dashboards-v2.13.0''"
        and T=600 and opts=opts_plain and w=world_two and n=n and w'=w']
    by (simp add: world_two_def)
  have e: "\<exists>w'. poll_loop (observe env_wait_close)
            (\<lambda>i. checkOpenSearchHealth (network env_wait_close i) opts_plain) 180 0 0 0 vars_start
            world_empty = (Resolved None, 2, w') \<and> now w' = 8000"
    using poll_failure_terminates_child [where
        check="\<lambda>i. checkOpenSearchHealth (network env_wait_close i) opts_plain"
        and obs="observe env_wait_close" and i=0 and h="Some False" and h'="Some False"
        and v=vars_start and w=world_empty and ts=0 and T=180 and child=0]
    by (simp add: env_wait_close_def obs_of_def check_os_red vars_start_def world_empty_def
        timer_delay_def unref_def child_kill_def)
  have f: "\<exists>w'. poll_loop (observe env_closed_green)
            (\<lambda>i. checkOpenSearchHealth (network env_closed_green i) opts_plain) 180 0 0 0
            (vars_start\<lparr>closed := True\<rparr>) world_empty = (Resolved (Some 0), 1, w') \<and>
          subprocesses w' = [Some 0]"
    using poll_failure_terminates_child [where
        check="\<lambda>i. checkOpenSearchHealth (network env_closed_green i) opts_plain"
        and obs="observe env_closed_green" and i=0
        and v="vars_start\<lparr>closed := True\<rparr>" and w=world_empty and ts=0 and T=180 and child=0]
    by (simp add: env_closed_green_def check_os_green world_empty_def recordProcess_def unpipe_def)
  have g: "closes_in_wait (observe env_wait_close 0)"
    by (simp add: env_wait_close_def)
  show ?thesis using a r b c d e f g by auto
qed

section \<open>The shutdown registry\<close>

lemma kill_entry_fst: "fst (kill_entry os e w) = None"
  by (cases e) (auto simp: kill_entry_def process_kill_def Let_def split: option.splits)

lemma kill_entry_pid: "pid (objs (snd (kill_entry os e w)) q) = pid (objs w q)"
  by (cases e) (auto simp: kill_entry_def process_kill_def unref_def Let_def split: option.splits)

lemma kill_entry_syscalls:
  "syscalls (snd (kill_entry os e w)) =
     syscalls w @ map (\<lambda>p. (- int (pid (objs w p)), SIGTERM)) (registered [e])"
  by (cases e)
     (auto simp: kill_entry_def process_kill_def unref_def registered_def Let_def split: option.splits)

lemma kill_entry_timers:
  "timers (snd (kill_entry os e w)) =
     timers w @ map (\<lambda>p. (5000, p))
       (filter (\<lambda>p. os (- int (pid (objs w p))) SIGTERM = None) (registered [e]))"
  by (cases e)
     (auto simp: kill_entry_def process_kill_def unref_def registered_def Let_def split: option.splits)

lemma registered_Cons: "registered (e # es) = registered [e] @ registered es"
  by (simp add: registered_def)

lemma for_of_kill_entry:
  "fst (for_of (kill_entry os) es w) = None \<and>
   syscalls (snd (for_of (kill_entry os) es w)) =
     syscalls w @ map (\<lambda>p. (- int (pid (objs w p)), SIGTERM)) (registered es) \<and>
   timers (snd (for_of (kill_entry os) es w)) =
     timers w @ map (\<lambda>p. (5000, p))
       (filter (\<lambda>p. os (- int (pid (objs w p))) SIGTERM = None) (registered es))"
proof (induction es arbitrary: w)
  case Nil
  show ?case by (simp add: registered_def)
next
  case (Cons e es)
  obtain w' where step: "kill_entry os e w = (None, w')"
    using kill_entry_fst [of os e w] by (cases "kill_entry os e w") auto
  have pid_eq: "\<And>q. pid (objs w' q) = pid (objs w q)"
    using kill_entry_pid [of os e w] step by simp
  have sys: "syscalls w' =
      syscalls w @ map (\<lambda>p. (- int (pid (objs w p)), SIGTERM)) (registered [e])"
    using kill_entry_syscalls [of os e w] step by simp
  have tim: "timers w' = timers w @ map (\<lambda>p. (5000, p))
       (filter (\<lambda>p. os (- int (pid (objs w p))) SIGTERM = None) (registered [e]))"
    using kill_entry_timers [of os e w] step by simp
  show ?case
    using Cons.IH [of w'] step
    by (simp add: pid_eq sys tim registered_Cons [of e es])
qed

text \<open>
  C4. One call of \<^verbatim>\<open>killSubprocesses\<close> calls \<^verbatim>\<open>process.kill(-pid, 'SIGTERM')\<close> once for
  every registered process, in order, whatever the operating system answers to each
  call: an error thrown for one entry is caught inside the loop, so no exception leaves the
  call (its first component is \<open>None\<close>) and the later entries are still signalled. With an
  empty registry the call changes nothing: no signal, no timer, no output.
\<close>

theorem killSubprocesses_signals_every_entry:
  "fst (killSubprocesses os w) = None \<and>
   syscalls (snd (killSubprocesses os w)) =
     syscalls w @ map (\<lambda>p. (- int (pid (objs w p)), SIGTERM)) (registered (subprocesses w)) \<and>
   killSubprocesses os (w\<lparr>subprocesses := []\<rparr>) = (None, w\<lparr>subprocesses := []\<rparr>)"
  using for_of_kill_entry [of os "subprocesses w" w]
  by (simp add: killSubprocesses_def)

theorem killSubprocesses_signals_every_entry_witness:
  "os_gone_first (- 42) SIGTERM = Some ESRCH \<and>
   fst (killSubprocesses os_gone_first world_two) = None \<and>
   syscalls (snd (killSubprocesses os_gone_first world_two)) = [(- 42, SIGTERM), (- 77, SIGTERM)]"
  using killSubprocesses_signals_every_entry [of os_gone_first world_two]
  by (simp add: world_two_def proc_a_def proc_b_def registered_def os_gone_first_def)

text \<open>
  C5, as the code has it. The claim says the deferred SIGKILL is skipped when the
  zero-signal probe is answered with permission denied. \<^verbatim>\<open>isProcessAlive\<close> returns
  \<^verbatim>\<open>err.code === 'EPERM'\<close> in that case, that is true, and the SIGKILL goes out: here the
  probe of process 42 is answered with EPERM and the timer's callback still signals the
  group.
\<close>

theorem sigkill_on_eperm:
  "os_eperm 42 SIG0 = Some EPERM \<and>
   timers (snd (killSubprocesses os_eperm world_two)) = [(5000, 0), (5000, 1)] \<and>
   syscalls (snd (sigkill_timer os_eperm 0 world_two)) = [(42, SIG0), (- 42, SIGKILL)]"
  by (simp add: sigkill_timer_def isProcessAlive_def process_kill_def os_eperm_def world_two_def
      proc_a_def proc_b_def killSubprocesses_def kill_entry_def unref_def)

text \<open>
  C5, amended. \<^verbatim>\<open>killSubprocesses\<close> schedules one callback, 5000 ms later, for each
  registered process whose group took the SIGTERM. When it runs, the callback probes the
  process id with signal 0 (unless the id is falsy) and sends SIGKILL to the group exactly
  when the probe succeeds or fails with EPERM, or the id is falsy; after any other error
  of the probe, such as no such process, it sends nothing more.
\<close>

theorem sigkill_timer_guard:
  "timers (snd (killSubprocesses os w)) =
     timers w @ map (\<lambda>p. (5000, p))
       (filter (\<lambda>p. os (- int (pid (objs w p))) SIGTERM = None) (registered (subprocesses w))) \<and>
   syscalls (snd (sigkill_timer os' p w')) =
     syscalls w'
     @ (if pid (objs w' p) = 0 then [] else [(int (pid (objs w' p)), SIG0)])
     @ (if pid (objs w' p) = 0 \<or> os' (int (pid (objs w' p))) SIG0 = None
           \<or> os' (int (pid (objs w' p))) SIG0 = Some EPERM
        then [(- int (pid (objs w' p)), SIGKILL)] else [])"
proof -
  have a: "timers (snd (killSubprocesses os w)) =
     timers w @ map (\<lambda>p. (5000, p))
       (filter (\<lambda>p. os (- int (pid (objs w p))) SIGTERM = None) (registered (subprocesses w)))"
    using for_of_kill_entry [of os "subprocesses w" w] by (simp add: killSubprocesses_def)
  have b: "syscalls (snd (sigkill_timer os' p w')) =
     syscalls w'
     @ (if pid (objs w' p) = 0 then [] else [(int (pid (objs w' p)), SIG0)])
     @ (if pid (objs w' p) = 0 \<or> os' (int (pid (objs w' p))) SIG0 = None
           \<or> os' (int (pid (objs w' p))) SIG0 = Some EPERM
        then [(- int (pid (objs w' p)), SIGKILL)] else [])"
    by (auto simp: sigkill_timer_def isProcessAlive_def process_kill_def
        split: option.splits bool.splits)
  show ?thesis using a b by simp
qed

theorem sigkill_timer_guard_witness:
  "os_probe_gone 42 SIG0 = Some ESRCH \<and>
   timers (snd (killSubprocesses os_gone_first world_two)) = [(5000, 1)] \<and>
   syscalls (snd (sigkill_timer os_probe_gone 0 world_two)) = [(42, SIG0)]"
  using sigkill_timer_guard [of os_gone_first world_two os_probe_gone 0 world_two]
  by (simp add: world_two_def proc_a_def proc_b_def registered_def os_gone_first_def
      os_probe_gone_def)

section \<open>Downloads\<close>

lemma startsWith_length: "startsWith a b \<Longrightarrow> length b \<le> length a"
  by (induction a b rule: startsWith.induct) auto

lemma not_under_longer: "s \<noteq> [] \<Longrightarrow> \<not> under (p @ s) p"
  using startsWith_length [of p "p @ s @ ''/''"] by (auto simp: under_def)

lemma finish_stream_dest:
  "finish_stream env response (dest @ ''.temp'') dest fs = (r, fs') \<Longrightarrow>
   (case r of
      Resolved p \<Rightarrow> p = dest \<and> ended response \<and>
        files fs' dest = Some (concat (chunks response)) \<and> files fs' (dest @ ''.temp'') = None
    | Rejected m \<Rightarrow> files fs' dest = files fs dest
    | Pending \<Rightarrow> files fs' dest = files fs dest
    | Uncaught \<Rightarrow> files fs' dest = None)"
  by (auto simp: finish_stream_def Let_def rm_rf_def under_def split: if_splits)

lemma pipe_to_file_dest:
  "pipe_to_file env response (dest @ ''.temp'') dest fs = (r, fs') \<Longrightarrow>
   (case r of
      Resolved p \<Rightarrow> p = dest \<and> ended response \<and>
        files fs' dest = Some (concat (chunks response)) \<and> files fs' (dest @ ''.temp'') = None
    | Rejected m \<Rightarrow> files fs' dest = files fs dest
    | Pending \<Rightarrow> files fs' dest = files fs dest
    | Uncaught \<Rightarrow> files fs' dest = None)"
  using finish_stream_dest [where env=env and response=response and dest=dest and fs=fs
      and r=r and fs'=fs']
  by (auto simp: pipe_to_file_def split: option.splits if_splits)

lemma download_dest:
  "download fuel env url dest fs = (r, fs') \<Longrightarrow>
   (case r of
      Resolved p \<Rightarrow> p = dest \<and>
        (\<exists>u response. http_get env u = Reply response \<and> ended response \<and>
           files fs' dest = Some (concat (chunks response))) \<and>
        files fs' (dest @ ''.temp'') = None
    | Rejected m \<Rightarrow> files fs' dest = files fs dest
    | Pending \<Rightarrow> files fs' dest = files fs dest
    | Uncaught \<Rightarrow> files fs' dest = None)"
proof (induction fuel arbitrary: url fs)
  case 0
  then show ?case by auto
next
  case (Suc fuel)
  show ?case
  proof (cases "mkdir_p (dirname dest) fs")
    case (Inl e)
    then show ?thesis using Suc.prems by auto
  next
    case (Inr fs0)
    let ?fs1 = "(rm_rf (dest @ ''.temp'') fs0)\<lparr>http_log := http_log fs0 @ [url]\<rparr>"
    have keep: "files ?fs1 dest = files fs dest"
      using Inr not_under_longer [of "''.temp''" dest]
      by (auto simp: mkdir_p_def rm_rf_def split: if_splits)
    show ?thesis
    proof (cases "http_get env url")
      case (NetError msg)
      then show ?thesis using Inr keep Suc.prems by (auto simp: Let_def)
    next
      case (Reply response)
      consider (bad) "statusCode response < 200 \<or> statusCode response \<ge> 400"
        | (redirect) "\<not> (statusCode response < 200 \<or> statusCode response \<ge> 400)"
            "statusCode response > 300" "truthy_str (headers response ''location'')"
        | (noloc) "\<not> (statusCode response < 200 \<or> statusCode response \<ge> 400)"
            "statusCode response > 300" "\<not> truthy_str (headers response ''location'')"
        | (ok) "\<not> (statusCode response < 200 \<or> statusCode response \<ge> 400)"
            "\<not> statusCode response > 300"
        by blast
      then show ?thesis
      proof cases
        case bad
        then show ?thesis using Inr Reply keep Suc.prems by (auto simp: Let_def)
      next
        case redirect
        have eq: "download fuel env (resolveURL env (the (headers response ''location'')) url) dest ?fs1
            = (r, fs')"
          using Inr Reply redirect Suc.prems by (simp add: Let_def)
        show ?thesis
          using Suc.IH [OF eq] keep by (auto split: settled.splits)
      next
        case noloc
        then show ?thesis using Inr Reply keep Suc.prems by (auto simp: Let_def)
      next
        case ok
        have eq: "pipe_to_file env response (dest @ ''.temp'') dest ?fs1 = (r, fs')"
          using Inr Reply ok Suc.prems by (simp add: Let_def)
        show ?thesis
          using pipe_to_file_dest [OF eq] Reply keep by (auto split: settled.splits)
      qed
    qed
  qed
qed

lemma download_failure_kinds:
  "mkdir_p (dirname dest) fs = Inr fs0 \<Longrightarrow>
   (http_get env url = NetError msg \<longrightarrow>
      fst (download (Suc fuel) env url dest fs) = Rejected (ErrorMessage msg)) \<and>
   (http_get env url = Reply response \<and> (statusCode response < 200 \<or> 400 \<le> statusCode response) \<longrightarrow>
      fst (download (Suc fuel) env url dest fs)
        = Rejected (DownloadFailed (statusCode response) (statusMessage response))) \<and>
   (http_get env url = Reply response \<and> 200 \<le> statusCode response \<and> statusCode response \<le> 300 \<and>
    write_fails_at env = Some k \<and> k < length (chunks response) \<longrightarrow>
      fst (download (Suc fuel) env url dest fs) = Rejected (ErrorMessage ''write failed'') \<and>
      files (snd (download (Suc fuel) env url dest fs)) (dest @ ''.temp'')
        = Some (concat (take k (chunks response))))"
  by (auto simp: Let_def pipe_to_file_def existsSync_def rm_rf_def under_def mkdir_p_def
      split: if_splits)

lemma download_example:
  "fst (download 5 env_disk_full ''https://ci/os.tar.gz'' cache_file fs_cached)
     = Rejected (ErrorMessage ''write failed'') \<and>
   files (snd (download 5 env_disk_full ''https://ci/os.tar.gz'' cache_file fs_cached)) cache_file = Some ''old'' \<and>
   files (snd (download 5 env_disk_full ''https://ci/os.tar.gz'' cache_file fs_cached)) (cache_file @ ''.temp'') = Some ''ab'' \<and>
   http_log (snd (download 5 env_disk_full ''https://ci/os.tar.gz'' cache_file fs_cached))
     = [''https://ci/os.tar.gz'', ''https://mirror/os.tar.gz'']"
  by (simp add: eval_nat_numeral env_disk_full_def env_host_def fs_cached_def cache_file_def Let_def mkdir_p_def dirname_def
      rm_rf_def under_def pipe_to_file_def existsSync_def truthy_str_def redirect_reply_def body_reply_def)

text \<open>
  C7. However a call of \<^verbatim>\<open>_download\<close> ends, the destination is never partly written.
  When the promise is rejected (a status below 200 or from 400 on, a redirect with no
  location, a connection error, an error of the write stream) or never settles, the
  destination holds what it held before the call. Only the \<^verbatim>\<open>finish\<close> handler of the
  write stream touches it: it removes it and renames \<open>dest.temp\<close>, which holds the whole
  body of a response that has ended, over it. When that rename throws, the destination is
  absent. The bytes of a download that fails while writing are in \<open>dest.temp\<close>.
\<close>

theorem download_never_partial:
  "(download fuel env url dest fs = (r, fs') \<longrightarrow>
     (case r of
        Resolved p \<Rightarrow> p = dest \<and>
          (\<exists>u response. http_get env u = Reply response \<and> ended response \<and>
             files fs' dest = Some (concat (chunks response))) \<and>
          files fs' (dest @ ''.temp'') = None
      | Rejected m \<Rightarrow> files fs' dest = files fs dest
      | Pending \<Rightarrow> files fs' dest = files fs dest
      | Uncaught \<Rightarrow> files fs' dest = None)) \<and>
   (mkdir_p (dirname dest) fs = Inr fs0 \<longrightarrow>
     (http_get env url = NetError msg \<longrightarrow>
        fst (download (Suc fuel) env url dest fs) = Rejected (ErrorMessage msg)) \<and>
     (http_get env url = Reply response \<and> (statusCode response < 200 \<or> 400 \<le> statusCode response) \<longrightarrow>
        fst (download (Suc fuel) env url dest fs)
          = Rejected (DownloadFailed (statusCode response) (statusMessage response))) \<and>
     (http_get env url = Reply response \<and> 200 \<le> statusCode response \<and> statusCode response \<le> 300 \<and>
      write_fails_at env = Some k \<and> k < length (chunks response) \<longrightarrow>
        fst (download (Suc fuel) env url dest fs) = Rejected (ErrorMessage ''write failed'') \<and>
        files (snd (download (Suc fuel) env url dest fs)) (dest @ ''.temp'')
          = Some (concat (take k (chunks response)))))"
  using download_dest [of fuel env url dest fs r fs']
    download_failure_kinds [of dest fs fs0 env url msg fuel response k]
  by blast

theorem download_never_partial_witness:
  "fst (download 5 env_disk_full ''https://ci/os.tar.gz'' cache_file fs_cached)
     = Rejected (ErrorMessage ''write failed'') \<and>
   files fs_cached cache_file = Some ''old'' \<and>
   files (snd (download 5 env_disk_full ''https://ci/os.tar.gz'' cache_file fs_cached)) cache_file
     = Some ''old'' \<and>
   files (snd (download 5 env_disk_full ''https://ci/os.tar.gz'' cache_file fs_cached))
     (cache_file @ ''.temp'') = Some ''ab''"
  using download_never_partial [of 5 env_disk_full "''https://ci/os.tar.gz''" cache_file fs_cached
      "fst (download 5 env_disk_full ''https://ci/os.tar.gz'' cache_file fs_cached)"
      "snd (download 5 env_disk_full ''https://ci/os.tar.gz'' cache_file fs_cached)"]
    download_example
  by (simp add: fs_cached_def)

section \<open>Release versions\<close>

lemma dot_not_digit: "\<not> is_digit (CHR ''.'')"
  by (simp add: is_digit_def)

lemma span_digits:
  assumes "list_all is_digit a" and "\<not> is_digit d"
  shows "takeWhile is_digit (a @ d # r) = a" and "dropWhile is_digit (a @ d # r) = d # r"
  using assms by (induction a) auto

lemma isVersion_unfold:
  "isVersion s \<longleftrightarrow>
     takeWhile is_digit s \<noteq> [] \<and>
     (\<exists>r2. dropWhile is_digit s = CHR ''.'' # r2 \<and> takeWhile is_digit r2 \<noteq> [] \<and>
        (\<exists>c. dropWhile is_digit r2 = CHR ''.'' # c \<and> c \<noteq> [] \<and> list_all is_digit c))"
proof (cases "dropWhile is_digit s")
  case Nil
  then show ?thesis by (simp add: isVersion_def Let_def del: dropWhile_eq_Nil_conv)
next
  case (Cons d1 r2)
  show ?thesis
  proof (cases "dropWhile is_digit r2")
    case Nil
    then show ?thesis using Cons by (simp add: isVersion_def Let_def del: dropWhile_eq_Nil_conv)
  next
    case c2: (Cons d2 c)
    then show ?thesis using Cons by (simp add: isVersion_def Let_def del: dropWhile_eq_Nil_conv)
  qed
qed


lemma isVersion_iff:
  "isVersion s \<longleftrightarrow>
     (\<exists>a b c. s = a @ ''.'' @ b @ ''.'' @ c \<and> a \<noteq> [] \<and> b \<noteq> [] \<and> c \<noteq> [] \<and>
        list_all is_digit a \<and> list_all is_digit b \<and> list_all is_digit c)"
proof
  assume "isVersion s"
  then obtain r2 c where a: "takeWhile is_digit s \<noteq> []"
      and r1: "dropWhile is_digit s = CHR ''.'' # r2"
      and b: "takeWhile is_digit r2 \<noteq> []"
      and r3: "dropWhile is_digit r2 = CHR ''.'' # c"
      and c: "c \<noteq> []" "list_all is_digit c"
    unfolding isVersion_unfold by blast
  have "s = takeWhile is_digit s @ dropWhile is_digit s"
    by (rule takeWhile_dropWhile_id [symmetric])
  moreover have "r2 = takeWhile is_digit r2 @ dropWhile is_digit r2"
    by (rule takeWhile_dropWhile_id [symmetric])
  ultimately have s: "s = takeWhile is_digit s @ ''.'' @ takeWhile is_digit r2 @ ''.'' @ c"
    unfolding r1 r3 by (metis append_Cons append_Nil)
  have da: "list_all is_digit (takeWhile is_digit s)"
    and db: "list_all is_digit (takeWhile is_digit r2)"
    by (auto simp: list_all_iff dest: set_takeWhileD)
  show "\<exists>a b c. s = a @ ''.'' @ b @ ''.'' @ c \<and> a \<noteq> [] \<and> b \<noteq> [] \<and> c \<noteq> [] \<and>
        list_all is_digit a \<and> list_all is_digit b \<and> list_all is_digit c"
    using s a b c da db by blast
next
  assume "\<exists>a b c. s = a @ ''.'' @ b @ ''.'' @ c \<and> a \<noteq> [] \<and> b \<noteq> [] \<and> c \<noteq> [] \<and>
        list_all is_digit a \<and> list_all is_digit b \<and> list_all is_digit c"
  then obtain a b c where s: "s = a @ CHR ''.'' # b @ CHR ''.'' # c"
      and ne: "a \<noteq> []" "b \<noteq> []" "c \<noteq> []"
      and d: "list_all is_digit a" "list_all is_digit b" "list_all is_digit c"
    by auto
  have t1: "takeWhile is_digit s = a" and d1: "dropWhile is_digit s = CHR ''.'' # b @ CHR ''.'' # c"
    unfolding s using span_digits [OF d(1) dot_not_digit] by simp_all
  have t2: "takeWhile is_digit (b @ CHR ''.'' # c) = b"
    and d2: "dropWhile is_digit (b @ CHR ''.'' # c) = CHR ''.'' # c"
    using span_digits [OF d(2) dot_not_digit] by simp_all
  show "isVersion s"
    unfolding isVersion_unfold t1 d1 using ne d(3) t2 d2 by simp
qed

lemma prepare_example:
  "fst (prepareOpenSearch 5 env_host (opts_plain\<lparr>refreshDownloads := True\<rparr>) fs_cached) = Resolved (Some ''/srv/OpenSearch-v2.13.0'')"
  by (simp add: prepareOpenSearch_def isVersion_js_def js_str_def isVersion_def is_digit_def opts_plain_def
      downloadOpenSearch_def legacy_release_def path_join_def
      eval_nat_numeral env_host_def fs_cached_def cache_file_def Let_def mkdir_p_def dirname_def
      rm_rf_def under_def pipe_to_file_def finish_stream_def existsSync_def truthy_str_def redirect_reply_def body_reply_def
      unarchive_def configureOpenSearch_def configureOpenSearchCerts_def bind_err_def fs_try_def
      deleteFromFile_def rm_f_def rename_def write_lines_def LF_def CR_def configureSecurity_def
      configurePerformanceAnalyzer_def pluginParams_def appendToFile_def subject_dn_def
      readline.simps)

text \<open>
  C10. \<^verbatim>\<open>prepareOpenSearch\<close> does nothing and resolves to undefined when the requested
  version is not digits, a dot, digits, a dot, digits and nothing else, an absent version
  included: the file system is unchanged and no URL is requested. It resolves to an
  installation directory only for such a version. The parser of \<^verbatim>\<open>--opensearch-version\<close>
  trims its argument and accepts it exactly when what is left is such a version, which is
  then the option's value; every other argument is an \<^verbatim>\<open>InvalidArgumentError\<close>.
\<close>

theorem prepareOpenSearch_only_releases:
  "(\<not> isVersion_js (opensearchVersion opts) \<longrightarrow>
      prepareOpenSearch fuel env opts fs = (Resolved None, fs)) \<and>
   (prepareOpenSearch fuel env opts fs = (Resolved (Some dir), fs') \<longrightarrow>
      (\<exists>a b c. opensearchVersion opts = Some (a @ ''.'' @ b @ ''.'' @ c) \<and>
         a \<noteq> [] \<and> b \<noteq> [] \<and> c \<noteq> [] \<and>
         list_all is_digit a \<and> list_all is_digit b \<and> list_all is_digit c)) \<and>
   \<not> isVersion_js None \<and>
   fullVersion input = (if isVersion (trim input) then Inr (trim input) else Inl InvalidArgumentError) \<and>
   (fullVersion input = Inr v \<longrightarrow>
      (\<exists>a b c. v = a @ ''.'' @ b @ ''.'' @ c \<and> a \<noteq> [] \<and> b \<noteq> [] \<and> c \<noteq> [] \<and>
         list_all is_digit a \<and> list_all is_digit b \<and> list_all is_digit c))"
proof -
  have a: "prepareOpenSearch fuel env opts fs = (Resolved None, fs)"
    if "\<not> isVersion_js (opensearchVersion opts)"
    using that by (simp add: prepareOpenSearch_def)
  have n: "\<not> isVersion_js None"
    by (simp add: isVersion_js_def js_str_def isVersion_def is_digit_def)
  have b: "\<exists>a b c. opensearchVersion opts = Some (a @ ''.'' @ b @ ''.'' @ c) \<and>
         a \<noteq> [] \<and> b \<noteq> [] \<and> c \<noteq> [] \<and>
         list_all is_digit a \<and> list_all is_digit b \<and> list_all is_digit c"
    if r: "prepareOpenSearch fuel env opts fs = (Resolved (Some dir), fs')"
  proof -
    have v: "isVersion_js (opensearchVersion opts)"
      using r a by (cases "isVersion_js (opensearchVersion opts)") auto
    then obtain s where s: "opensearchVersion opts = Some s"
      using n by (cases "opensearchVersion opts") auto
    then have "isVersion s" using v by (simp add: isVersion_js_def js_str_def)
    then show ?thesis using s isVersion_iff [of s] by simp
  qed
  have c: "fullVersion input
      = (if isVersion (trim input) then Inr (trim input) else Inl InvalidArgumentError)"
    by (simp add: fullVersion_def Let_def)
  have d: "\<exists>a b c. v = a @ ''.'' @ b @ ''.'' @ c \<and> a \<noteq> [] \<and> b \<noteq> [] \<and> c \<noteq> [] \<and>
         list_all is_digit a \<and> list_all is_digit b \<and> list_all is_digit c"
    if "fullVersion input = Inr v"
    using that isVersion_iff [of v] by (auto simp: fullVersion_def Let_def split: if_splits)
  show ?thesis using a b n c d by blast
qed

theorem prepareOpenSearch_only_releases_witness:
  "\<not> isVersion_js (opensearchVersion (opts_plain\<lparr>opensearchVersion := Some ''github://2.x''\<rparr>)) \<and>
   prepareOpenSearch 5 env_host (opts_plain\<lparr>opensearchVersion := Some ''github://2.x''\<rparr>) fs_cached
     = (Resolved None, fs_cached) \<and>
   fst (prepareOpenSearch 5 env_host (opts_plain\<lparr>refreshDownloads := True\<rparr>) fs_cached)
     = Resolved (Some ''/srv/OpenSearch-v2.13.0'') \<and>
   (\<exists>a b c. opensearchVersion (opts_plain\<lparr>refreshDownloads := True\<rparr>) = Some (a @ ''.'' @ b @ ''.'' @ c) \<and>
      a \<noteq> [] \<and> b \<noteq> [] \<and> c \<noteq> [] \<and>
      list_all is_digit a \<and> list_all is_digit b \<and> list_all is_digit c) \<and>
   fullVersion ''2.x'' = Inl InvalidArgumentError \<and>
   fullVersion '' 2.15.0'' = Inr ''2.15.0''"
proof -
  let ?ok = "prepareOpenSearch 5 env_host (opts_plain\<lparr>refreshDownloads := True\<rparr>) fs_cached"
  have ok: "?ok = (Resolved (Some ''/srv/OpenSearch-v2.13.0''), snd ?ok)"
    using prepare_example by (simp add: prod_eq_iff)
  have a: "\<exists>a b c. opensearchVersion (opts_plain\<lparr>refreshDownloads := True\<rparr>)
        = Some (a @ ''.'' @ b @ ''.'' @ c) \<and>
      a \<noteq> [] \<and> b \<noteq> [] \<and> c \<noteq> [] \<and>
      list_all is_digit a \<and> list_all is_digit b \<and> list_all is_digit c"
    using ok prepareOpenSearch_only_releases [of "opts_plain\<lparr>refreshDownloads := True\<rparr>" 5 env_host
        fs_cached "''/srv/OpenSearch-v2.13.0''" "snd ?ok" "''2.x''" v]
    by blast
  have b: "\<not> isVersion_js (opensearchVersion (opts_plain\<lparr>opensearchVersion := Some ''github://2.x''\<rparr>)) \<and>
     prepareOpenSearch 5 env_host (opts_plain\<lparr>opensearchVersion := Some ''github://2.x''\<rparr>) fs_cached
       = (Resolved None, fs_cached) \<and>
     fullVersion ''2.x'' = Inl InvalidArgumentError \<and>
     fullVersion '' 2.15.0'' = Inr ''2.15.0''"
    using prepareOpenSearch_only_releases [of "opts_plain\<lparr>opensearchVersion := Some ''github://2.x''\<rparr>"
        5 env_host fs_cached dir fs' "''2.x''" v]
      prepareOpenSearch_only_releases [of opts_plain 5 env_host fs_cached dir fs' "'' 2.15.0''" v]
    by (simp add: opts_plain_def isVersion_js_def js_str_def isVersion_def is_digit_def trim_def
        is_space_def)
  show ?thesis using a b prepare_example by simp
qed

section \<open>The health probes\<close>

lemma checkDashboardsHealth_true_iff:
  "checkDashboardsHealth net opts = Resolved (Some True) \<longleftrightarrow>
     (\<exists>response j. respond net (dashboardsRequest opts) = Reply response \<and>
        json_content response = Some True \<and> ended response \<and>
        JSON_parse net (concat (chunks response)) = Some j \<and>
        overall_state j = Val (JStr ''green''))"
  by (auto simp: checkDashboardsHealth_def split: net_reply.splits option.splits bool.splits if_splits)

lemma checkOpenSearchHealth_true_iff:
  "checkOpenSearchHealth net opts = Resolved (Some True) \<longleftrightarrow>
     (\<exists>response j. respond net (opensearchRequest opts) = Reply response \<and>
        (security opts \<longrightarrow> statusCode response = 200) \<and>
        json_content response = Some True \<and> ended response \<and>
        JSON_parse net (concat (chunks response)) = Some j \<and>
        (opt_get (Val j) ''status'' = Val (JStr ''green'')
         \<or> opt_get (Val j) ''status'' = Val (JStr ''yellow'')))"
  by (auto simp: checkOpenSearchHealth_def status_healthy_def
      split: net_reply.splits option.splits bool.splits if_splits)

lemma probe_undefined:
  "(respond net (dashboardsRequest opts) = NetError msg \<longrightarrow>
      checkDashboardsHealth net opts = Resolved None) \<and>
   (respond net (opensearchRequest opts) = NetError msg \<longrightarrow>
      checkOpenSearchHealth net opts = Resolved None) \<and>
   (respond net (dashboardsRequest opts) = Reply response \<and> json_content response \<noteq> Some True \<longrightarrow>
      checkDashboardsHealth net opts = Resolved None) \<and>
   (respond net (opensearchRequest opts) = Reply response \<and> json_content response \<noteq> Some True \<longrightarrow>
      checkOpenSearchHealth net opts = Resolved None) \<and>
   (respond net (dashboardsRequest opts) = Reply response \<and> ended response \<and>
    JSON_parse net (concat (chunks response)) = None \<longrightarrow>
      checkDashboardsHealth net opts = Resolved None) \<and>
   (\<not> security opts \<and> respond net (opensearchRequest opts) = Reply response \<and> ended response \<and>
    JSON_parse net (concat (chunks response)) = None \<longrightarrow>
      checkOpenSearchHealth net opts = Resolved None) \<and>
   (security opts \<and> respond net (opensearchRequest opts) = Reply response \<and>
    statusCode response \<noteq> 200 \<longrightarrow>
      checkOpenSearchHealth net opts = Resolved None)"
  by (auto simp: checkDashboardsHealth_def checkOpenSearchHealth_def
      split: net_reply.splits option.splits bool.splits if_splits)

lemma probe_settles:
  "(\<exists>result. checkDashboardsHealth net opts = Resolved result) \<and>
   checkOpenSearchHealth net opts \<noteq> Rejected reason"
  by (auto simp: checkDashboardsHealth_def checkOpenSearchHealth_def
      split: net_reply.splits option.splits bool.splits if_splits)

text \<open>
  C8, as the code has it. The claim lets the security mode choose between HTTP and HTTPS
  for each probe, and sends every status outside 2xx to undefined. The dashboard probe
  always requests \<^verbatim>\<open>http://\<close>, with security on as well; and the probes that go through
  \<^verbatim>\<open>fetch\<close> never look at the status: a 503 with a JSON body whose state is red returns
  false.
\<close>

theorem dashboards_probe_plain_http:
  "security opts_secure \<and>
   req_scheme (dashboardsRequest opts_secure) = HTTP \<and>
   checkDashboardsHealth (net_of 503 False) opts_secure = Resolved (Some False) \<and>
   checkOpenSearchHealth (net_of 503 False) opts_plain = Resolved (Some False)"
  by (simp add: opts_secure_def opts_plain_def dashboardsRequest_def checkDashboardsHealth_def
      checkOpenSearchHealth_def opensearchRequest_def net_of_def json_reply_def json_content_def
      parse_stub_def overall_state_def status_healthy_def)

text \<open>
  C8, amended. The dashboard probe requests \<^verbatim>\<open>/api/status\<close>, always over HTTP, and
  returns true exactly when the response declares \<^verbatim>\<open>application/json\<close>, its body parses
  and the body's \<^verbatim>\<open>status.overall.state\<close> is \<^verbatim>\<open>green\<close>. The search-engine probe requests
  \<^verbatim>\<open>/_cluster/health\<close>, over HTTPS (without verifying the certificate) when security is
  on and over HTTP otherwise, and returns true exactly when the response declares
  \<^verbatim>\<open>application/json\<close> (and, with security on, has status 200), its body parses and the
  body's \<^verbatim>\<open>status\<close> is \<^verbatim>\<open>green\<close> or \<^verbatim>\<open>yellow\<close>. Both probes carry a basic-auth header
  made of the user name and the password when security is on, and none otherwise. A
  network error and a response that does not declare \<^verbatim>\<open>application/json\<close> give
  undefined, and so do a body read through \<^verbatim>\<open>fetch\<close> that does not parse and, with
  security on, every status other than 200. Undefined is not-yet-healthy, not a fatal
  error: the dashboard probe always resolves, the search-engine probe never rejects, and
  a poll loop whose probe resolved to undefined, on a child that has not closed and
  within the budget, waits on the timer and goes on to the next probe.
\<close>

theorem health_probe_contract:
  "dashboardsRequest opts =
     \<lparr>req_scheme = HTTP, req_host = dashboardsHost opts, req_port = dashboardsPort opts,
      req_path = ''/api/status'',
      req_auth = (if security opts then Some (username opts, js_str (password opts)) else None),
      req_rejectUnauthorized = True\<rparr> \<and>
   opensearchRequest opts =
     \<lparr>req_scheme = (if security opts then HTTPS else HTTP), req_host = opensearchHost opts,
      req_port = opensearchPort opts, req_path = ''/_cluster/health'',
      req_auth = (if security opts then Some (username opts, js_str (password opts)) else None),
      req_rejectUnauthorized = (\<not> security opts)\<rparr> \<and>
   (checkDashboardsHealth net opts = Resolved (Some True) \<longleftrightarrow>
     (\<exists>response j. respond net (dashboardsRequest opts) = Reply response \<and>
        json_content response = Some True \<and> ended response \<and>
        JSON_parse net (concat (chunks response)) = Some j \<and>
        overall_state j = Val (JStr ''green''))) \<and>
   (checkOpenSearchHealth net opts = Resolved (Some True) \<longleftrightarrow>
     (\<exists>response j. respond net (opensearchRequest opts) = Reply response \<and>
        (security opts \<longrightarrow> statusCode response = 200) \<and>
        json_content response = Some True \<and> ended response \<and>
        JSON_parse net (concat (chunks response)) = Some j \<and>
        (opt_get (Val j) ''status'' = Val (JStr ''green'')
         \<or> opt_get (Val j) ''status'' = Val (JStr ''yellow'')))) \<and>
   (respond net (dashboardsRequest opts) = NetError msg \<longrightarrow>
      checkDashboardsHealth net opts = Resolved None) \<and>
   (respond net (opensearchRequest opts) = NetError msg \<longrightarrow>
      checkOpenSearchHealth net opts = Resolved None) \<and>
   (respond net (dashboardsRequest opts) = Reply response \<and> json_content response \<noteq> Some True \<longrightarrow>
      checkDashboardsHealth net opts = Resolved None) \<and>
   (respond net (opensearchRequest opts) = Reply response \<and> json_content response \<noteq> Some True \<longrightarrow>
      checkOpenSearchHealth net opts = Resolved None) \<and>
   (respond net (dashboardsRequest opts) = Reply response \<and> ended response \<and>
    JSON_parse net (concat (chunks response)) = None \<longrightarrow>
      checkDashboardsHealth net opts = Resolved None) \<and>
   (\<not> security opts \<and> respond net (opensearchRequest opts) = Reply response \<and> ended response \<and>
    JSON_parse net (concat (chunks response)) = None \<longrightarrow>
      checkOpenSearchHealth net opts = Resolved None) \<and>
   (security opts \<and> respond net (opensearchRequest opts) = Reply response \<and>
    statusCode response \<noteq> 200 \<longrightarrow>
      checkOpenSearchHealth net opts = Resolved None) \<and>
   (\<exists>result. checkDashboardsHealth net opts = Resolved result) \<and>
   checkOpenSearchHealth net opts \<noteq> Rejected reason \<and>
   (checkDashboardsHealth (nets i) opts = Resolved None \<and>
    \<not> closed (deliver (closes_in_probe (obs i)) v) \<and>
    now w + int (latency (obs i)) - ts \<le> int T * 1000 \<longrightarrow>
      poll_loop obs (\<lambda>j. checkDashboardsHealth (nets j) opts) T child ts i v w =
        poll_loop obs (\<lambda>j. checkDashboardsHealth (nets j) opts) T child ts (Suc i)
          (deliver (closes_in_wait (obs i)) (deliver (closes_in_probe (obs i)) v))
          (w\<lparr>now := now w + int (latency (obs i))
                     + timer_delay (5000 - int (latency (obs i)))\<rparr>)) \<and>
   (checkOpenSearchHealth (nets i) opts = Resolved None \<and>
    \<not> closed (deliver (closes_in_probe (obs i)) v) \<and>
    now w + int (latency (obs i)) - ts \<le> int T * 1000 \<longrightarrow>
      poll_loop obs (\<lambda>j. checkOpenSearchHealth (nets j) opts) T child ts i v w =
        poll_loop obs (\<lambda>j. checkOpenSearchHealth (nets j) opts) T child ts (Suc i)
          (deliver (closes_in_wait (obs i)) (deliver (closes_in_probe (obs i)) v))
          (w\<lparr>now := now w + int (latency (obs i))
                     + timer_delay (5000 - int (latency (obs i)))\<rparr>))"
  using checkDashboardsHealth_true_iff [of net opts] checkOpenSearchHealth_true_iff [of net opts]
    probe_undefined [of net opts msg response] probe_settles [of net opts reason]
    poll_step_continue [where check="\<lambda>j. checkDashboardsHealth (nets j) opts" and i=i and h=None
      and obs=obs and v=v and w=w and ts=ts and T=T and child=child]
    poll_step_continue [where check="\<lambda>j. checkOpenSearchHealth (nets j) opts" and i=i and h=None
      and obs=obs and v=v and w=w and ts=ts and T=T and child=child]
  by (simp add: dashboardsRequest_def opensearchRequest_def)

theorem health_probe_contract_witness:
  "checkDashboardsHealth (net_of 200 True) opts_secure = Resolved (Some True) \<and>
   checkOpenSearchHealth (net_of 200 True) opts_secure = Resolved (Some True) \<and>
   checkDashboardsHealth net_down opts_plain = Resolved None \<and>
   checkOpenSearchHealth net_down opts_secure = Resolved None \<and>
   checkDashboardsHealth net_html opts_plain = Resolved None \<and>
   checkOpenSearchHealth net_html opts_plain = Resolved None \<and>
   checkOpenSearchHealth (net_of 503 True) opts_secure = Resolved None \<and>
   req_scheme (opensearchRequest opts_secure) = HTTPS \<and>
   req_auth (dashboardsRequest opts_secure) = Some (''admin'', ''s3cret'') \<and>
   req_auth (opensearchRequest opts_secure) = Some (''admin'', ''s3cret'') \<and>
   req_auth (dashboardsRequest opts_plain) = None \<and>
   poll_loop (\<lambda>i. obs_of 20 False) (\<lambda>j. checkDashboardsHealth net_down opts_plain) 600 0 0 0
       vars_start world_empty
     = poll_loop (\<lambda>i. obs_of 20 False) (\<lambda>j. checkDashboardsHealth net_down opts_plain) 600 0 0
         (Suc 0) vars_start (world_empty\<lparr>now := 5000\<rparr>)"
proof -
  have a: "checkDashboardsHealth (net_of 200 True) opts_secure = Resolved (Some True) \<and>
      req_auth (dashboardsRequest opts_secure) = Some (''admin'', ''s3cret'') \<and>
      req_auth (opensearchRequest opts_secure) = Some (''admin'', ''s3cret'') \<and>
      req_scheme (opensearchRequest opts_secure) = HTTPS"
    using health_probe_contract [where opts=opts_secure and net="net_of 200 True" and msg="''ECONNREFUSED''"
      and response="\<lparr>statusCode = 200, statusMessage = ''-'',
        headers = [''content-type'' \<mapsto> ''application/json; charset=UTF-8''],
        chunks = [''osd-green''], ended = True\<rparr>"
      and reason="ErrorMessage []" and nets="\<lambda>i. net_down" and i=0
      and obs="\<lambda>i. obs_of 20 False" and v=vars_start and w=world_empty and ts=0 and T=600
      and child=0]
    by (simp add: opts_secure_def opts_plain_def net_of_def net_down_def net_html_def json_reply_def
        json_content_def parse_stub_def overall_state_def dashboardsRequest_def opensearchRequest_def
        obs_of_def vars_start_def deliver_def world_empty_def timer_delay_def js_str_def)
  have b: "checkOpenSearchHealth (net_of 200 True) opts_secure = Resolved (Some True)"
    using health_probe_contract [where opts=opts_secure and net="net_of 200 True" and msg="''ECONNREFUSED''"
      and response="\<lparr>statusCode = 200, statusMessage = ''-'',
        headers = [''content-type'' \<mapsto> ''application/json; charset=UTF-8''],
        chunks = [''os-green''], ended = True\<rparr>"
      and reason="ErrorMessage []" and nets="\<lambda>i. net_down" and i=0
      and obs="\<lambda>i. obs_of 20 False" and v=vars_start and w=world_empty and ts=0 and T=600
      and child=0]
    by (simp add: opts_secure_def opts_plain_def net_of_def net_down_def net_html_def json_reply_def
        json_content_def parse_stub_def overall_state_def dashboardsRequest_def opensearchRequest_def
        obs_of_def vars_start_def deliver_def world_empty_def timer_delay_def js_str_def)
  have c: "checkDashboardsHealth net_down opts_plain = Resolved None \<and>
      req_auth (dashboardsRequest opts_plain) = None \<and>
      poll_loop (\<lambda>i. obs_of 20 False) (\<lambda>j. checkDashboardsHealth net_down opts_plain) 600 0 0 0
          vars_start world_empty
        = poll_loop (\<lambda>i. obs_of 20 False) (\<lambda>j. checkDashboardsHealth net_down opts_plain) 600 0 0
            (Suc 0) vars_start (world_empty\<lparr>now := 5000\<rparr>)"
    using health_probe_contract [where opts=opts_plain and net="net_down" and msg="''ECONNREFUSED''"
      and response="\<lparr>statusCode = 200, statusMessage = ''-'',
        headers = [''content-type'' \<mapsto> ''application/json; charset=UTF-8''],
        chunks = [''osd-green''], ended = True\<rparr>"
      and reason="ErrorMessage []" and nets="\<lambda>i. net_down" and i=0
      and obs="\<lambda>i. obs_of 20 False" and v=vars_start and w=world_empty and ts=0 and T=600
      and child=0]
    by (simp add: opts_secure_def opts_plain_def net_of_def net_down_def net_html_def json_reply_def
        json_content_def parse_stub_def overall_state_def dashboardsRequest_def opensearchRequest_def
        obs_of_def vars_start_def deliver_def world_empty_def timer_delay_def js_str_def)
  have d: "checkOpenSearchHealth net_down opts_secure = Resolved None"
    using health_probe_contract [where opts=opts_secure and net="net_down" and msg="''ECONNREFUSED''"
      and response="\<lparr>statusCode = 200, statusMessage = ''-'',
        headers = [''content-type'' \<mapsto> ''application/json; charset=UTF-8''],
        chunks = [''osd-green''], ended = True\<rparr>"
      and reason="ErrorMessage []" and nets="\<lambda>i. net_down" and i=0
      and obs="\<lambda>i. obs_of 20 False" and v=vars_start and w=world_empty and ts=0 and T=600
      and child=0]
    by (simp add: opts_secure_def opts_plain_def net_of_def net_down_def net_html_def json_reply_def
        json_content_def parse_stub_def overall_state_def dashboardsRequest_def opensearchRequest_def
        obs_of_def vars_start_def deliver_def world_empty_def timer_delay_def js_str_def)
  have e: "checkDashboardsHealth net_html opts_plain = Resolved None \<and>
      checkOpenSearchHealth net_html opts_plain = Resolved None"
    using health_probe_contract [where opts=opts_plain and net="net_html" and msg="''ECONNREFUSED''"
      and response="\<lparr>statusCode = 502, statusMessage = ''Bad Gateway'',
        headers = [''content-type'' \<mapsto> ''text/html''],
        chunks = [''<html></html>''], ended = True\<rparr>"
      and reason="ErrorMessage []" and nets="\<lambda>i. net_down" and i=0
      and obs="\<lambda>i. obs_of 20 False" and v=vars_start and w=world_empty and ts=0 and T=600
      and child=0]
    by (simp add: opts_secure_def opts_plain_def net_of_def net_down_def net_html_def json_reply_def
        json_content_def parse_stub_def overall_state_def dashboardsRequest_def opensearchRequest_def
        obs_of_def vars_start_def deliver_def world_empty_def timer_delay_def js_str_def)
  have f: "checkOpenSearchHealth (net_of 503 True) opts_secure = Resolved None"
    using health_probe_contract [where opts=opts_secure and net="net_of 503 True" and msg="''ECONNREFUSED''"
      and response="\<lparr>statusCode = 503, statusMessage = ''-'',
        headers = [''content-type'' \<mapsto> ''application/json; charset=UTF-8''],
        chunks = [''os-green''], ended = True\<rparr>"
      and reason="ErrorMessage []" and nets="\<lambda>i. net_down" and i=0
      and obs="\<lambda>i. obs_of 20 False" and v=vars_start and w=world_empty and ts=0 and T=600
      and child=0]
    by (simp add: opts_secure_def opts_plain_def net_of_def net_down_def net_html_def json_reply_def
        json_content_def parse_stub_def overall_state_def dashboardsRequest_def opensearchRequest_def
        obs_of_def vars_start_def deliver_def world_empty_def timer_delay_def js_str_def)
  show ?thesis using a b c d e f by blast
qed

section \<open>Plugin sources\<close>

lemma split_no_sep: "sep \<notin> set s \<Longrightarrow> split sep s = [s]"
  by (induction s) auto

lemma split_ne: "split sep s \<noteq> []"
  by (induction s) (auto split: list.splits)

lemma split_segment: "sep \<notin> set a \<Longrightarrow> split sep (a @ sep # r) = a # split sep r"
  by (induction a) (auto split: list.splits)

lemma split_three:
  assumes "CHR ''/'' \<notin> set u" and "CHR ''/'' \<notin> set rp" and "CHR ''/'' \<notin> set b"
  shows "split (CHR ''/'') (u @ ''/'' @ rp @ ''/'' @ b) = [u, rp, b]"
  using assms split_segment [of "CHR ''/''" u "rp @ ''/'' @ b"]
    split_segment [of "CHR ''/''" rp b] split_no_sep [of "CHR ''/''" b]
  by simp

text \<open>
  C9, as the code has it. The claim has a single-segment source fail. \<^verbatim>\<open>getSource\<close>
  sends it to \<^verbatim>\<open>getOfficialSource\<close> instead and returns a source reference: for the plugin
  \<^verbatim>\<open>maps\<close>, the request \<^verbatim>\<open>someone\<close> resolves to the official repository.
\<close>

theorem single_segment_resolves:
  "getSource projects_demo ''maps'' (Some ''someone'') None =
     Inr \<lparr>user = Some ''opensearch-project'', repo = Some ''dashboards-maps'', branch = Some ''main''\<rparr>"
  by (simp add: getSource_def getOfficialSource_def projects_demo_def projectSlugs_def
      own_entries_def trim_def is_space_def strip_github_def strip_github_colon_def to_lower_def
      nth_opt_def truthy_str_def)

text \<open>
  C9, amended. For a plugin of the project table, a requested source that is a single
  segment, once trimmed and stripped of its \<^verbatim>\<open>github:\<close> prefix, does not fail: the result
  is a source reference with the owner and the repository of the project's official
  source. A full three-part reference is used as it is, for every slug that
  \<^verbatim>\<open>projectSlugs\<close> answers.
\<close>

theorem getSource_segments:
  "(projectSlugs projects s = Some (Own p) \<and> strip_github (trim r) = seg \<and> seg \<noteq> [] \<and>
    CHR ''/'' \<notin> set seg \<longrightarrow>
      (\<exists>ref. getSource projects s (Some r) osdBranch = Inr ref \<and>
         user ref = nth_opt (split (CHR ''/'') (strip_github_colon (src p))) 0 \<and>
         repo ref = nth_opt (split (CHR ''/'') (strip_github_colon (src p))) 1)) \<and>
   (projectSlugs projects s = Some sl \<and> strip_github (trim r) = u @ ''/'' @ rp @ ''/'' @ b \<and>
    u \<noteq> [] \<and> rp \<noteq> [] \<and> b \<noteq> [] \<and>
    CHR ''/'' \<notin> set u \<and> CHR ''/'' \<notin> set rp \<and> CHR ''/'' \<notin> set b \<longrightarrow>
      getSource projects s (Some r) osdBranch = Inr \<lparr>user = Some u, repo = Some rp, branch = Some b\<rparr>)"
proof -
  have one: "\<exists>ref. getSource projects s (Some r) osdBranch = Inr ref \<and>
         user ref = nth_opt (split (CHR ''/'') (strip_github_colon (src p))) 0 \<and>
         repo ref = nth_opt (split (CHR ''/'') (strip_github_colon (src p))) 1"
    if h: "projectSlugs projects s = Some (Own p) \<and> strip_github (trim r) = seg \<and> seg \<noteq> [] \<and>
           CHR ''/'' \<notin> set seg"
  proof -
    obtain c cs where seg: "seg = c # cs" using h by (cases seg) auto
    have sp: "split (CHR ''/'') (c # cs) = [c # cs]"
      using h seg split_no_sep [of "CHR ''/''" seg] by simp
    show ?thesis
      using h seg sp
      by (simp add: getSource_def getOfficialSource_def nth_opt_def truthy_str_def Let_def)
  qed
  have three: "getSource projects s (Some r) osdBranch
        = Inr \<lparr>user = Some u, repo = Some rp, branch = Some b\<rparr>"
    if h: "projectSlugs projects s = Some sl \<and> strip_github (trim r) = u @ ''/'' @ rp @ ''/'' @ b \<and>
      u \<noteq> [] \<and> rp \<noteq> [] \<and> b \<noteq> [] \<and>
      CHR ''/'' \<notin> set u \<and> CHR ''/'' \<notin> set rp \<and> CHR ''/'' \<notin> set b"
  proof -
    obtain c cs where seg: "u @ ''/'' @ rp @ ''/'' @ b = c # cs"
      using h by (cases u) auto
    have sp: "split (CHR ''/'') (c # cs) = [u, rp, b]"
      using h split_three [of u rp b] seg by simp
    show ?thesis
      using h seg sp
      by (simp add: getSource_def nth_opt_def truthy_str_def Let_def)
  qed
  show ?thesis using one three by blast
qed

theorem getSource_segments_witness:
  "projectSlugs projects_demo ''maps'' =
     Some (Own \<lparr>slug = ''maps'', name = ''Maps'', src = ''github:opensearch-project/dashboards-maps/main'',
        releaseName = Some ''customImportMapDashboards''\<rparr>) \<and>
   projectSlugs projects_demo ''constructor'' = Some (Inherited (Some ''Object'')) \<and>
   strip_github (trim '' github://2.x '') = ''2.x'' \<and>
   (\<exists>ref. getSource projects_demo ''maps'' (Some '' github://2.x '') None = Inr ref \<and>
      user ref = Some ''opensearch-project'' \<and> repo ref = Some ''dashboards-maps'') \<and>
   getSource projects_demo ''maps'' (Some ''github:me/maps/feature'') (Some ''2.x'')
     = Inr \<lparr>user = Some ''me'', repo = Some ''maps'', branch = Some ''feature''\<rparr> \<and>
   getSource projects_demo ''constructor'' (Some ''a/b/c'') None
     = Inr \<lparr>user = Some ''a'', repo = Some ''b'', branch = Some ''c''\<rparr>"
  using getSource_segments [of projects_demo "''maps''"
      "\<lparr>slug = ''maps'', name = ''Maps'', src = ''github:opensearch-project/dashboards-maps/main'',
        releaseName = Some ''customImportMapDashboards''\<rparr>"
      "'' github://2.x ''" "''2.x''" None
      "Own \<lparr>slug = ''maps'', name = ''Maps'', src = ''github:opensearch-project/dashboards-maps/main'',
        releaseName = Some ''customImportMapDashboards''\<rparr>" "''me''" "''maps''" "''feature''"]
    getSource_segments [of projects_demo "''maps''"
      "\<lparr>slug = ''maps'', name = ''Maps'', src = ''github:opensearch-project/dashboards-maps/main'',
        releaseName = Some ''customImportMapDashboards''\<rparr>"
      "''github:me/maps/feature''" "''2.x''" "Some ''2.x''"
      "Own \<lparr>slug = ''maps'', name = ''Maps'', src = ''github:opensearch-project/dashboards-maps/main'',
        releaseName = Some ''customImportMapDashboards''\<rparr>" "''me''" "''maps''" "''feature''"]
    getSource_segments [of projects_demo "''constructor''" p "''a/b/c''" seg None
      "Inherited (Some ''Object'')" "''a''" "''b''" "''c''"]
  by (simp add: projects_demo_def projectSlugs_def own_entries_def proto_entry_def
      object_prototype_functions_def trim_def is_space_def strip_github_def
      strip_github_colon_def to_lower_def nth_opt_def)

lemma inherited_key_examples:
  "getSource projects_demo ''constructor'' (Some ''someone'') None = Inl TypeError \<and>
   getSource projects_demo ''constructor'' (Some ''a/b'') None
     = Inl (FailedToFindSource (Some ''Object'') (Some ''a/b'') None) \<and>
   getSource projects_demo ''nope'' (Some ''a/b/c'') None = Inl (UnknownKey ''nope'')"
  by (simp add: getSource_def getOfficialSource_def projects_demo_def projectSlugs_def
      own_entries_def proto_entry_def object_prototype_functions_def slot_name_def trim_def
      is_space_def strip_github_def to_lower_def nth_opt_def truthy_str_def)

section \<open>Configuration files\<close>

lemma LF_CR: "LF \<noteq> CR"
  by (simp add: LF_def CR_def)

lemma readline_LF: "readline cur (LF # rest) = cur # readline [] rest"
  using LF_CR by (cases rest) (simp_all add: readline.simps)

lemma readline_plain:
  "c \<noteq> LF \<Longrightarrow> c \<noteq> CR \<Longrightarrow> rest \<noteq> [] \<Longrightarrow> readline cur (c # rest) = readline (cur @ [c]) rest"
  by (cases rest) (simp_all add: readline.simps)

lemma readline_line:
  "clean l \<Longrightarrow> readline cur (l @ LF # rest) = (cur @ l) # readline [] rest"
proof (induction l arbitrary: cur)
  case Nil
  show ?case by (simp add: readline_LF)
next
  case (Cons x l)
  have x: "x \<noteq> LF" "x \<noteq> CR" and l: "clean l"
    using Cons.prems by (auto simp: clean_def)
  have "readline cur (x # (l @ LF # rest)) = readline (cur @ [x]) (l @ LF # rest)"
    using x by (intro readline_plain) simp_all
  then show ?case using Cons.IH [OF l, of "cur @ [x]"] by simp
qed

lemma readline_write_lines:
  "\<forall>l\<in>set ls. clean l \<Longrightarrow> readline [] (write_lines ls @ rest) = ls @ readline [] rest"
proof (induction ls)
  case Nil
  show ?case by (simp add: write_lines_def)
next
  case (Cons l ls)
  have "write_lines (l # ls) @ rest = l @ LF # (write_lines ls @ rest)"
    by (simp add: write_lines_def)
  then show ?case
    using Cons readline_line [of l "[]" "write_lines ls @ rest"] by simp
qed

lemma join_LF: "ps \<noteq> [] \<Longrightarrow> join [LF] ps @ [LF] = write_lines ps"
proof (induction ps)
  case Nil
  then show ?case by simp
next
  case (Cons p ps)
  show ?case
  proof (cases ps)
    case Nil
    then show ?thesis by (simp add: write_lines_def)
  next
    case (Cons q qs)
    then show ?thesis using Cons.IH by (simp add: write_lines_def)
  qed
qed

lemma clean_Nil: "clean []"
  by (simp add: clean_def)

lemma readline_clean: "clean cur \<Longrightarrow> \<forall>l\<in>set (readline cur s). clean l"
proof (induction cur s rule: readline.induct)
  case (1 cur)
  then show ?case by (simp add: readline.simps(1))
next
  case (2 cur c)
  then show ?case by (auto simp: clean_def readline.simps(2))
next
  case (3 cur c d ds)
  show ?case
  proof (cases "c = CR \<and> d = LF")
    case True
    have "\<forall>l\<in>set (readline [] ds). clean l"
      by (rule "3.IH"(1) [OF True clean_Nil])
    moreover have "readline cur (c # d # ds) = cur # readline [] ds"
      using True by (simp add: readline.simps(3))
    ultimately show ?thesis using "3.prems" by simp
  next
    case False
    show ?thesis
    proof (cases "c = LF \<or> c = CR")
      case True
      have "\<forall>l\<in>set (readline [] (d # ds)). clean l"
        by (rule "3.IH"(2) [OF False True clean_Nil])
      moreover have "readline cur (c # d # ds) = cur # readline [] (d # ds)"
        using False True by (simp only: readline.simps(3) if_False if_True)
      ultimately show ?thesis using "3.prems" by simp
    next
      case nl: False
      have cl: "clean (cur @ [c])" using nl "3.prems" by (auto simp: clean_def)
      have "\<forall>l\<in>set (readline (cur @ [c]) (d # ds)). clean l"
        by (rule "3.IH"(3) [OF False nl cl])
      moreover have "readline cur (c # d # ds) = readline (cur @ [c]) (d # ds)"
        using False nl by (simp only: readline.simps(3) if_False)
      ultimately show ?thesis by simp
    qed
  qed
qed

lemma readline_appended:
  assumes "\<forall>l\<in>set ls. clean l" and "\<forall>p\<in>set ps. clean p" and "ps \<noteq> []"
  shows "readline [] (write_lines ls @ [LF] @ join [LF] ps @ [LF]) = ls @ [[]] @ ps"
proof -
  have a: "readline [] ([LF] @ join [LF] ps @ [LF]) = [] # readline [] (write_lines ps)"
    using readline_LF [of "[]" "join [LF] ps @ [LF]"] join_LF [OF assms(3)] by simp
  have b: "readline [] (write_lines ps) = ps"
    using readline_write_lines [OF assms(2), of "[]"] by (simp add: readline.simps(1))
  have c: "readline [] (write_lines ls @ ([LF] @ join [LF] ps @ [LF]))
             = ls @ readline [] ([LF] @ join [LF] ps @ [LF])"
    by (rule readline_write_lines [OF assms(1)])
  show ?thesis unfolding c a b by simp
qed

lemma count_list_distinct: "distinct xs \<Longrightarrow> x \<in> set xs \<Longrightarrow> count_list xs x = 1"
  by (induction xs) (auto simp: count_list_0_iff)

lemma deleteFromFile_result:
  assumes "deleteFromFile file strings fs = Inr fs'"
  shows "\<exists>c. files fs file = Some c \<and>
           files fs' file = Some (write_lines
             (filter (\<lambda>line. \<not> list_ex (\<lambda>str. str_includes line str) strings) (readline [] c)))"
  using assms
  by (auto simp: deleteFromFile_def rm_f_def rename_def Let_def
      split: option.splits if_splits sum.splits)

lemma appendToFile_result:
  assumes "appendToFile file texts fs = Inr fs'"
  shows "files fs' file =
           Some ((case files fs file of None \<Rightarrow> [] | Some c \<Rightarrow> c) @ [LF] @ join [LF] texts @ [LF])"
  using assms by (auto simp: appendToFile_def split: if_splits)

lemma startsWith_append: "startsWith (p @ s) (p @ t) = startsWith s t"
  by (induction p) auto

lemma params_deleted:
  "\<forall>p\<in>set (configParams opts). list_ex (\<lambda>str. str_includes p str) (linesToDelete opts)"
  by (simp add: configParams_def linesToDelete_def)

lemma params_distinct: "distinct (configParams opts)"
  by (simp add: configParams_def)

lemma blank_kept: "\<not> list_ex (\<lambda>str. str_includes [] str) (linesToDelete opts)"
  by (simp add: linesToDelete_def)

lemma params_clean:
  assumes "clean (dashboardsHost opts)" and "clean (dashboardsPort opts)"
    and "clean (opensearchHost opts)" and "clean (opensearchPort opts)"
    and "clean (username opts)" and "clean (js_str (password opts))"
  shows "\<forall>p\<in>set (configParams opts). clean p"
  using assms by (simp add: configParams_def clean_def LF_def CR_def DQ_def)

lemma config_not_under_plugins:
  "\<not> under (path_join folder ''plugins/securityDashboards'')
           (path_join folder ''config/opensearch_dashboards.yml'')"
  using startsWith_append [of folder "''/config/opensearch_dashboards.yml''"
      "''/plugins/securityDashboards/''"]
  by (simp add: under_def path_join_def)

lemma configureDashboards_result:
  assumes "configureDashboards folder opts fs = Inr fs'"
  shows "\<exists>c. files fs (path_join folder ''config/opensearch_dashboards.yml'') = Some c \<and>
           files fs' (path_join folder ''config/opensearch_dashboards.yml'') =
             Some (write_lines
                     (filter (\<lambda>line. \<not> list_ex (\<lambda>str. str_includes line str) (linesToDelete opts))
                        (readline [] c))
                   @ [LF] @ join [LF] (configParams opts) @ [LF])"
proof -
  let ?cfg = "path_join folder ''config/opensearch_dashboards.yml''"
  obtain fs1 where d: "deleteFromFile ?cfg (linesToDelete opts) fs = Inr fs1"
    using assms
    by (cases "deleteFromFile ?cfg (linesToDelete opts) fs")
       (auto simp: configureDashboards_def bind_err_def fs_try_def Let_def)
  let ?fs1' = "if security opts then fs1
               else rm_rf (path_join folder ''plugins/securityDashboards'') fs1"
  have a: "appendToFile ?cfg (configParams opts) ?fs1' = Inr fs'"
    using assms d
    by (cases "appendToFile ?cfg (configParams opts) ?fs1'")
       (auto simp: configureDashboards_def bind_err_def fs_try_def Let_def)
  have same: "files ?fs1' ?cfg = files fs1 ?cfg"
    using config_not_under_plugins [of folder] by (simp add: rm_rf_def)
  obtain c where c: "files fs ?cfg = Some c"
      "files fs1 ?cfg = Some (write_lines
         (filter (\<lambda>line. \<not> list_ex (\<lambda>str. str_includes line str) (linesToDelete opts))
            (readline [] c)))"
    using deleteFromFile_result [OF d] by blast
  show ?thesis
    using appendToFile_result [OF a] c same by simp
qed

lemma configureDashboards_twice:
  assumes r1: "configureDashboards folder opts fs = Inr fs1"
    and r2: "configureDashboards folder opts fs1 = Inr fs2"
    and cl: "\<forall>p\<in>set (configParams opts). clean p"
  shows "\<exists>c. files fs2 (path_join folder ''config/opensearch_dashboards.yml'') = Some c \<and>
           (\<forall>p\<in>set (configParams opts). count_list (readline [] c) p = 1)"
proof -
  let ?cfg = "path_join folder ''config/opensearch_dashboards.yml''"
  let ?keep = "\<lambda>line. \<not> list_ex (\<lambda>str. str_includes line str) (linesToDelete opts)"
  let ?ps = "configParams opts"
  have ne: "?ps \<noteq> []" by (simp add: configParams_def)
  obtain c0 where c1: "files fs1 ?cfg =
      Some (write_lines (filter ?keep (readline [] c0)) @ [LF] @ join [LF] ?ps @ [LF])"
    using configureDashboards_result [OF r1] by blast
  let ?kept = "filter ?keep (readline [] c0)"
  have kept_clean: "\<forall>l\<in>set ?kept. clean l"
    using readline_clean [OF clean_Nil, of c0] by simp
  have lines1: "readline [] (write_lines ?kept @ [LF] @ join [LF] ?ps @ [LF]) = ?kept @ [[]] @ ?ps"
    by (rule readline_appended [OF kept_clean cl ne])
  have drop_ps: "filter ?keep ?ps = []"
    using params_deleted [of opts] by (simp add: filter_empty_conv)
  have kept2: "filter ?keep (?kept @ [[]] @ ?ps) = ?kept @ [[]]"
    using drop_ps blank_kept [of opts] by (simp add: list_ex_iff)
  have c2: "files fs2 ?cfg = Some (write_lines (?kept @ [[]]) @ [LF] @ join [LF] ?ps @ [LF])"
    using configureDashboards_result [OF r2] c1 lines1 kept2 by simp
  have kept2_clean: "\<forall>l\<in>set (?kept @ [[]]). clean l"
    using kept_clean clean_Nil by simp
  have lines2: "readline [] (write_lines (?kept @ [[]]) @ [LF] @ join [LF] ?ps @ [LF])
                  = (?kept @ [[]]) @ [[]] @ ?ps"
    by (rule readline_appended [OF kept2_clean cl ne])
  have once: "count_list ((?kept @ [[]]) @ [[]] @ ?ps) p = 1" if p: "p \<in> set ?ps" for p
  proof -
    have "p \<notin> set ?kept" using params_deleted [of opts] p by simp
    then have k0: "count_list ?kept p = 0" by (simp add: count_list_0_iff)
    have "p \<noteq> []" using params_deleted [of opts] p blank_kept [of opts] by blast
    then have pn: "[] \<noteq> p" by simp
    have "count_list ?ps p = 1" by (rule count_list_distinct [OF params_distinct p])
    then show ?thesis using k0 pn by simp
  qed
  show ?thesis using c2 lines2 once by simp
qed

text \<open>
  \<^verbatim>\<open>configureDashboards\<close> deletes every key it appends: applied twice with the same
  options, whose values hold no line break, it leaves each appended line in the file
  exactly once (\<open>configureDashboards_twice\<close>). \<^verbatim>\<open>configureOpenSearch\<close> deletes three of
  the keys it appends and not \<^verbatim>\<open>http.port\<close>.
\<close>

lemmas cfg_defs = configureOpenSearch_def configureOpenSearchCerts_def bind_err_def fs_try_def
      deleteFromFile_def rm_f_def rename_def write_lines_def LF_def CR_def configureSecurity_def
      configurePerformanceAnalyzer_def pluginParams_def appendToFile_def subject_dn_def
      env_host_def opts_plain_def fs_installed_def os_yml_def path_join_def mkdir_p_def rm_rf_def
      under_def existsSync_def Let_def

lemma configureOpenSearch_once:
  "(case configureOpenSearch env_host ''/srv/OpenSearch-v2.13.0'' opts_plain fs_installed of
      Inl e \<Rightarrow> None | Inr fs1 \<Rightarrow> map_option (readline []) (files fs1 os_yml))
   = Some [''cluster.name: demo'', '''', ''network.host: 127.0.0.1'', ''http.port: 9200'',
       ''discovery.type: single-node'', ''cluster.routing.allocation.disk.threshold_enabled: false'']"
  by (simp add: cfg_defs readline.simps)

text \<open>
  C6, at a failing input. \<^verbatim>\<open>configureOpenSearch\<close> is applied twice, with the default
  host and port, to an installation with no plugin directory whose configuration file
  holds one line. The second run removes the \<^verbatim>\<open>network.host\<close>, \<^verbatim>\<open>discovery.type\<close> and
  \<^verbatim>\<open>cluster.routing\<close> lines of the first and keeps its \<^verbatim>\<open>http.port\<close> line, so that after
  the second append the line \<^verbatim>\<open>http.port: 9200\<close> is in the file twice.
\<close>

theorem configureOpenSearch_twice_duplicates:
  "(case configured_twice of None \<Rightarrow> None | Some fs2 \<Rightarrow> map_option (readline []) (files fs2 os_yml))
   = Some [''cluster.name: demo'', [], ''http.port: 9200'', [], ''network.host: 127.0.0.1'',
       ''http.port: 9200'', ''discovery.type: single-node'',
       ''cluster.routing.allocation.disk.threshold_enabled: false''] \<and>
   count_list [''cluster.name: demo'', [], ''http.port: 9200'', [], ''network.host: 127.0.0.1'',
       ''http.port: 9200'', ''discovery.type: single-node'',
       ''cluster.routing.allocation.disk.threshold_enabled: false''] ''http.port: 9200'' = 2"
  by (simp add: configured_twice_def cfg_defs readline.simps)

end
